theory Spec2Isabelle
  imports Complex_Main "HOL-Library.AList" "HOL-Library.Char_ord" "HOL-Library.List_Lexorder"
    "HOL-Library.Log_Nat"
begin

section \<open>Python values handled by the converter\<close>

text \<open>
  The converter (\<^verbatim>\<open>src/qfxconvert/converter.py\<close>) walks objects built by the OFX parser
  and looks at every attribute value through \<^verbatim>\<open>isinstance\<close>, \<^verbatim>\<open>callable\<close> and
  \<^verbatim>\<open>hasattr\<close>.  The datatype \<open>pyval\<close> below has one constructor for each kind of value
  these tests tell apart.

  The exceptions that reach the caller are values of the type \<open>error\<close>, each with its
  message.
\<close>

datatype error =
    FileNotFoundError string
  | ValueError string
  | AttributeError string

text \<open>
  A \<^verbatim>\<open>Decimal\<close> is a finite decimal number \<open>c * 10 ^ e\<close> (coefficient and exponent), an
  infinity with its sign (\<open>True\<close> for the negative one), a quiet NaN or a signalling NaN.
  A \<^verbatim>\<open>float\<close> is a binary64 value: the rational number a finite one denotes, an
  infinity with its sign, or NaN.  The sign of a zero and of a NaN and the payload of a NaN
  are not kept: no test of the converter looks at them.
\<close>

datatype decimal =
    Decimal int int
  | DInfinity bool
  | DNaN
  | DSNaN

datatype pyfloat =
    Finite rat
  | Infinity bool
  | NaN

record datetime =
  year :: nat
  month :: nat
  day :: nat
  hour :: nat
  minute :: nat
  second :: nat
  microsecond :: nat
  utcoffset :: "int option"

text \<open>
  \<open>utcoffset\<close> is \<^verbatim>\<open>None\<close> for a naive datetime and otherwise the offset of its
  \<^verbatim>\<open>tzinfo\<close> in microseconds.

  \<open>PObject\<close> is an instance that has a \<^verbatim>\<open>__dict__\<close>, given by the attributes
  \<^verbatim>\<open>getattr\<close> finds on it; \<open>PCallable\<close> is any value for which \<^verbatim>\<open>callable\<close> holds (a
  bound method); \<open>POther\<close> is any remaining value without a \<^verbatim>\<open>__dict__\<close> (a
  \<^verbatim>\<open>date\<close>, a \<^verbatim>\<open>time\<close>, bytes, ...).
\<close>

datatype pyval =
    PNone
  | PDatetime datetime
  | PDecimal decimal
  | PStr string
  | PInt int
  | PFloat pyfloat
  | PBool bool
  | PCallable
  | PObject "(string \<times> pyval) list"
  | POther

text \<open>
  An object is the list of its attributes in the order \<^verbatim>\<open>dir\<close> lists them, each with
  the value \<^verbatim>\<open>getattr\<close> returns.  An attribute is a stored value: a property whose
  getter raises is not an object of this model.  A \<^verbatim>\<open>dict\<close> is an association list in
  insertion order: assigning to a key that is present replaces its value in place,
  assigning to a new key appends it.
\<close>

type_synonym pyobj = "(string \<times> pyval) list"
type_synonym pydict = "(string \<times> pyval) list"

definition getattr :: "pyobj \<Rightarrow> string \<Rightarrow> pyval option" where
  "getattr obj name = map_of obj name"

definition getattr_default :: "pyobj \<Rightarrow> string \<Rightarrow> pyval \<Rightarrow> pyval" where
  "getattr_default obj name dflt = (case getattr obj name of Some v \<Rightarrow> v | None \<Rightarrow> dflt)"

definition setitem :: "pydict \<Rightarrow> string \<Rightarrow> pyval \<Rightarrow> pydict" where
  "setitem d k v = AList.update k v d"

definition dict_update :: "pydict \<Rightarrow> pydict \<Rightarrow> pydict" where
  "dict_update d other = foldl (\<lambda>acc (k, v). setitem acc k v) d other"

definition keys :: "pydict \<Rightarrow> string list" where
  "keys d = map fst d"

fun callable :: "pyval \<Rightarrow> bool" where
  "callable PCallable = True"
| "callable _ = False"

fun startswith_underscore :: "string \<Rightarrow> bool" where
  "startswith_underscore [] = False"
| "startswith_underscore (c # cs) = (c = CHR ''_'')"

section \<open>Text formatting\<close>

definition quoted :: "string \<Rightarrow> string" where
  "quoted s = [CHR 0x27] @ s @ [CHR 0x27]"

definition digit_char :: "nat \<Rightarrow> char" where
  "digit_char n = char_of (48 + n)"

fun str_nat :: "nat \<Rightarrow> string" where
  "str_nat n = (if n < 10 then [digit_char n] else str_nat (n div 10) @ [digit_char (n mod 10)])"

declare str_nat.simps [simp del]

definition str_int :: "int \<Rightarrow> string" where
  "str_int i = (if i < 0 then CHR ''-'' # str_nat (nat (- i)) else str_nat (nat i))"

text \<open>\<open>fmt_d w n\<close> is \<^verbatim>\<open>"%0wd" % n\<close> for a natural number: at least \<open>w\<close> digits.\<close>

definition fmt_d :: "nat \<Rightarrow> nat \<Rightarrow> string" where
  "fmt_d w n = replicate (w - length (str_nat n)) (CHR ''0'') @ str_nat n"

text \<open>
  Modelled from the spec: the ISO-8601 rendering of a temporal value (section 4.1, rule 1)
  is done by \<^verbatim>\<open>datetime.isoformat()\<close> of the Python standard library, whose code is not
  part of this repository.  The definitions follow the library's format
  \<^verbatim>\<open>YYYY-MM-DDTHH:MM:SS[.ffffff][+HH:MM[:SS[.ffffff]]]\<close>: the fraction is printed only when
  the microsecond is not zero, the offset only for an aware datetime, and its seconds
  only when they are not zero.
\<close>

definition format_time :: "nat \<Rightarrow> nat \<Rightarrow> nat \<Rightarrow> nat \<Rightarrow> string" where
  "format_time hh mm ss us =
     fmt_d 2 hh @ '':'' @ fmt_d 2 mm @ '':'' @ fmt_d 2 ss @
     (if us \<noteq> 0 then ''.'' @ fmt_d 6 us else [])"

definition format_offset :: "int option \<Rightarrow> string" where
  "format_offset off =
     (case off of
        None \<Rightarrow> []
      | Some d \<Rightarrow>
          (let sign = (if d < 0 then ''-'' else ''+'');
               a = nat \<bar>d\<bar>;
               hh = a div 3600000000;
               r = a mod 3600000000;
               mm = r div 60000000;
               ss = r mod 60000000
           in sign @ fmt_d 2 hh @ '':'' @ fmt_d 2 mm @
              (if ss \<noteq> 0
               then '':'' @ fmt_d 2 (ss div 1000000) @
                    (if ss mod 1000000 \<noteq> 0 then ''.'' @ fmt_d 6 (ss mod 1000000) else [])
               else [])))"

definition isoformat :: "datetime \<Rightarrow> string" where
  "isoformat t =
     fmt_d 4 (year t) @ ''-'' @ fmt_d 2 (month t) @ ''-'' @ fmt_d 2 (day t) @ ''T'' @
     format_time (hour t) (minute t) (second t) (microsecond t) @
     format_offset (utcoffset t)"

section \<open>Reading an ISO-8601 text back\<close>















section \<open>Converting a decimal to a float\<close>

text \<open>
  \<^verbatim>\<open>float(attr_value)\<close> on a \<^verbatim>\<open>Decimal\<close> (line 89) is the interpreter's conversion: a
  finite decimal becomes the binary64 value nearest to it, a tie going to the even
  significand, and a value too large for binary64 becomes an infinity; an infinity and a
  quiet NaN become \<^verbatim>\<open>inf\<close> and \<^verbatim>\<open>nan\<close>; a signalling NaN raises \<^verbatim>\<open>ValueError\<close>.

  \<open>binary_exponent x\<close> is the exponent \<open>e\<close> with \<open>2 ^ e \<le> x < 2 ^ (e + 1)\<close> for a
  positive \<open>x\<close>, found from the bit lengths of numerator and denominator.  A binary64
  value with this exponent is a multiple of \<open>2 ^ (e - 52)\<close>; below \<open>2 ^ - 1022\<close> the
  spacing stays \<open>2 ^ - 1074\<close>.
\<close>

definition decimal_value :: "int \<Rightarrow> int \<Rightarrow> rat" where
  "decimal_value c e = of_int c * 10 powi e"

definition round_half_even :: "rat \<Rightarrow> int" where
  "round_half_even x =
     (let n = \<lfloor>x\<rfloor>; r = x - of_int n
      in if r < 1 / 2 then n else if 1 / 2 < r then n + 1 else if even n then n else n + 1)"

definition binary_exponent :: "rat \<Rightarrow> int" where
  "binary_exponent x =
     (case quotient_of x of (p, q) \<Rightarrow>
        (let e0 = bitlen p - bitlen q in if 2 powi e0 \<le> x then e0 else e0 - 1))"

definition float_of_rat :: "rat \<Rightarrow> pyfloat" where
  "float_of_rat x =
     (if x = 0 then Finite 0
      else
        (let e = max (binary_exponent \<bar>x\<bar>) (- 1022);
             ulp = 2 powi (e - 52);
             f = of_int (round_half_even (x / ulp)) * ulp
         in if 2 powi 1024 \<le> \<bar>f\<bar> then Infinity (x < 0) else Finite f))"

definition float_of_decimal :: "decimal \<Rightarrow> error + pyfloat" where
  "float_of_decimal x =
     (case x of
        Decimal c e \<Rightarrow> Inr (float_of_rat (decimal_value c e))
      | DInfinity negative \<Rightarrow> Inr (Infinity negative)
      | DNaN \<Rightarrow> Inr NaN
      | DSNaN \<Rightarrow> Inl (ValueError ''cannot convert signaling NaN to float''))"

section \<open>The environment\<close>

text \<open>
  What the converter takes from its collaborators.  \<open>ofx_parse\<close> stands for lines 30 to 45
  of \<^verbatim>\<open>parse\<close>: decoding the bytes, the ASCII transliteration, \<^verbatim>\<open>OFXTree.parse\<close> and
  \<^verbatim>\<open>OFXTree.convert\<close>; it returns the text of the exception or the parsed document.
  \<open>with_suffix\<close> is \<^verbatim>\<open>Path.with_suffix\<close>; \<open>py_str\<close> is \<^verbatim>\<open>str()\<close> on the values the
  CSV writer does not print itself.

  The errors of the model are those the converter raises itself, the failure of the parser
  and the failure of \<^verbatim>\<open>float()\<close> included.  A failure inside \<^verbatim>\<open>open\<close> for writing,
  inside \<^verbatim>\<open>csv\<close> or inside \<^verbatim>\<open>json.dump\<close> is not modelled: a written file holds the rows
  or the dictionary handed to the library.  \<^verbatim>\<open>Path.with_suffix\<close> is total here; the
  library raises only for a path with an empty name, which is never a readable file.
\<close>

record statement =
  account :: pyobj
  transactions :: "pyobj list option"
  positions :: "pyobj list option"

text \<open>
  \<open>transactions\<close> is \<^verbatim>\<open>None\<close> or the list \<^verbatim>\<open>statement.transactions\<close>; \<open>positions\<close> is
  \<^verbatim>\<open>None\<close> when the statement has no attribute \<^verbatim>\<open>positions\<close> or when it is \<^verbatim>\<open>None\<close>.
  An \<open>account\<close> that is \<^verbatim>\<open>None\<close> is the object without attributes.
\<close>

record ofx =
  statements :: "statement list"

datatype content =
    Bytes string
  | CsvFile "string list list"
  | JsonFile "int option" "(string \<times> pydict list) list"

record env =
  ofx_parse :: "content \<Rightarrow> string + ofx"
  py_str :: "pyval \<Rightarrow> string"
  with_suffix :: "string \<Rightarrow> string \<Rightarrow> string"

section \<open>Flattening one object\<close>

text \<open>
  The body of the loop over \<^verbatim>\<open>dir(trx)\<close> (lines 77 to 96, and again lines 127 to 146 for
  positions): one attribute name with its value, and the dictionary built so far.  The
  only statement of the body that can raise is \<^verbatim>\<open>float(attr_value)\<close>; the exception is not
  caught, so it ends the loop and the call.
\<close>

fun flatten_attr :: "pydict \<Rightarrow> string \<times> pyval \<Rightarrow> error + pydict" where
  "flatten_attr d (attr_name, attr_value) =
     (if startswith_underscore attr_name \<or> callable attr_value then Inr d
      else case attr_value of
          PNone \<Rightarrow> Inr d
        | PDatetime t \<Rightarrow> Inr (setitem d attr_name (PStr (isoformat t)))
        | PDecimal x \<Rightarrow>
            (case float_of_decimal x of
               Inl e \<Rightarrow> Inl e
             | Inr f \<Rightarrow> Inr (setitem d attr_name (PFloat f)))
        | PStr s \<Rightarrow> Inr (setitem d attr_name attr_value)
        | PInt i \<Rightarrow> Inr (setitem d attr_name attr_value)
        | PFloat f \<Rightarrow> Inr (setitem d attr_name attr_value)
        | PBool b \<Rightarrow> Inr (setitem d attr_name attr_value)
        | PObject attrs \<Rightarrow>
            (let d1 = (case getattr attrs ''uniqueid'' of
                         Some u \<Rightarrow> setitem d (attr_name @ ''_uniqueid'') u
                       | None \<Rightarrow> d)
             in case getattr attrs ''uniqueidtype'' of
                  Some u \<Rightarrow> Inr (setitem d1 (attr_name @ ''_uniqueidtype'') u)
                | None \<Rightarrow> Inr d1)
        | _ \<Rightarrow> Inr d)"

text \<open>The loop itself: the attributes in the order of \<^verbatim>\<open>dir\<close>, up to the first error.\<close>

fun attributes_loop :: "pyobj \<Rightarrow> pydict \<Rightarrow> error + pydict" where
  "attributes_loop [] d = Inr d"
| "attributes_loop (a # rest) d =
     (case flatten_attr d a of
        Inl e \<Rightarrow> Inl e
      | Inr d' \<Rightarrow> attributes_loop rest d')"

definition transaction_to_dict :: "pyobj \<Rightarrow> pydict \<Rightarrow> error + pydict" where
  "transaction_to_dict trx account_info = attributes_loop trx (dict_update [] account_info)"

definition position_to_dict :: "pyobj \<Rightarrow> pydict \<Rightarrow> error + pydict" where
  "position_to_dict pos account_info = attributes_loop pos (dict_update [] account_info)"

section \<open>Aggregating the statements\<close>

definition transaction_account_info :: "pyobj \<Rightarrow> pydict" where
  "transaction_account_info acct =
     [(''account_id'', getattr_default acct ''acctid'' (PStr [])),
      (''account_type'', getattr_default acct ''accttype'' (PStr [])),
      (''bank_id'', getattr_default acct ''bankid''
                      (getattr_default acct ''brokerid'' (PStr [])))]"

definition position_account_info :: "pyobj \<Rightarrow> pydict" where
  "position_account_info acct =
     [(''account_id'', getattr_default acct ''acctid'' (PStr [])),
      (''broker_id'', getattr_default acct ''brokerid'' (PStr []))]"

text \<open>
  The inner loops (lines 67 to 69 and 117 to 119): every object of one statement is
  flattened and appended to the list; an error of the flattening ends the extraction.
\<close>

fun append_transactions :: "pyobj list \<Rightarrow> pydict \<Rightarrow> pydict list \<Rightarrow> error + pydict list" where
  "append_transactions [] account_info acc = Inr acc"
| "append_transactions (trx # rest) account_info acc =
     (case transaction_to_dict trx account_info of
        Inl e \<Rightarrow> Inl e
      | Inr trx_dict \<Rightarrow> append_transactions rest account_info (acc @ [trx_dict]))"

fun append_positions :: "pyobj list \<Rightarrow> pydict \<Rightarrow> pydict list \<Rightarrow> error + pydict list" where
  "append_positions [] account_info acc = Inr acc"
| "append_positions (pos # rest) account_info acc =
     (case position_to_dict pos account_info of
        Inl e \<Rightarrow> Inl e
      | Inr pos_dict \<Rightarrow> append_positions rest account_info (acc @ [pos_dict]))"

text \<open>The two loops over the statements, with the list they append to.\<close>

fun transactions_loop :: "statement list \<Rightarrow> pydict list \<Rightarrow> error + pydict list" where
  "transactions_loop [] acc = Inr acc"
| "transactions_loop (s # ss) acc =
     (let account_info = transaction_account_info (account s)
      in case transactions s of
           None \<Rightarrow> transactions_loop ss acc
         | Some stmt_transactions \<Rightarrow>
             if stmt_transactions \<noteq> []
             then (case append_transactions stmt_transactions account_info acc of
                     Inl e \<Rightarrow> Inl e
                   | Inr acc' \<Rightarrow> transactions_loop ss acc')
             else transactions_loop ss acc)"

fun positions_loop :: "statement list \<Rightarrow> pydict list \<Rightarrow> error + pydict list" where
  "positions_loop [] acc = Inr acc"
| "positions_loop (s # ss) acc =
     (case positions s of
        None \<Rightarrow> positions_loop ss acc
      | Some stmt_positions \<Rightarrow>
          (let account_info = position_account_info (account s)
           in case append_positions stmt_positions account_info acc of
                Inl e \<Rightarrow> Inl e
              | Inr acc' \<Rightarrow> positions_loop ss acc'))"

section \<open>The converter object and the file system\<close>

record converter =
  input_file :: string
  ofx_data :: "ofx option"
  parsed :: bool

text \<open>
  The world outside the converter: the files by path, and how many times the OFX parser
  has been run.
\<close>

record world =
  files :: "string \<Rightarrow> content option"
  parser_calls :: nat

definition write_file :: "string \<Rightarrow> content \<Rightarrow> world \<Rightarrow> world" where
  "write_file path c w = w\<lparr>files := (files w)(path \<mapsto> c)\<rparr>"

definition QFXConverter_init :: "world \<Rightarrow> string \<Rightarrow> error + converter" where
  "QFXConverter_init w path =
     (if files w path = None
      then Inl (FileNotFoundError (''Input file not found: '' @ path))
      else Inr \<lparr>input_file = path, ofx_data = None, parsed = False\<rparr>)"

text \<open>
  \<^verbatim>\<open>parse\<close>: every exception inside the \<^verbatim>\<open>try\<close> block, a failing \<^verbatim>\<open>open\<close> included, comes
  out as a \<^verbatim>\<open>ValueError\<close> with the fixed prefix.
\<close>

definition parse :: "env \<Rightarrow> converter \<times> world \<Rightarrow> (error + unit) \<times> converter \<times> world" where
  "parse E cw =
     (case cw of (c, w) \<Rightarrow>
        (case files w (input_file c) of
           None \<Rightarrow>
             (Inl (ValueError (''Failed to parse OFX file: '' @
                     ''[Errno 2] No such file or directory: '' @
                     quoted (input_file c))), c, w)
         | Some bytes \<Rightarrow>
             (let w' = w\<lparr>parser_calls := Suc (parser_calls w)\<rparr>
              in case ofx_parse E bytes of
                   Inl msg \<Rightarrow> (Inl (ValueError (''Failed to parse OFX file: '' @ msg)), c, w')
                 | Inr doc \<Rightarrow> (Inr (), c\<lparr>ofx_data := Some doc, parsed := True\<rparr>, w'))))"

definition ensure_parsed :: "env \<Rightarrow> converter \<times> world \<Rightarrow> (error + ofx) \<times> converter \<times> world" where
  "ensure_parsed E cw =
     (case (if \<not> parsed (fst cw) then parse E cw else (Inr (), cw)) of
        (Inl e, cw') \<Rightarrow> (Inl e, cw')
      | (Inr u, cw') \<Rightarrow>
          (case ofx_data (fst cw') of
             None \<Rightarrow> (Inl (AttributeError
                        (quoted ''NoneType'' @ '' object has no attribute '' @
                         quoted ''statements'')), cw')
           | Some doc \<Rightarrow> (Inr doc, cw')))"

definition extract_transactions ::
    "env \<Rightarrow> converter \<times> world \<Rightarrow> (error + pydict list) \<times> converter \<times> world" where
  "extract_transactions E cw =
     (case ensure_parsed E cw of
        (Inl e, cw') \<Rightarrow> (Inl e, cw')
      | (Inr doc, cw') \<Rightarrow> (transactions_loop (statements doc) [], cw'))"

definition extract_positions ::
    "env \<Rightarrow> converter \<times> world \<Rightarrow> (error + pydict list) \<times> converter \<times> world" where
  "extract_positions E cw =
     (case ensure_parsed E cw of
        (Inl e, cw') \<Rightarrow> (Inl e, cw')
      | (Inr doc, cw') \<Rightarrow> (positions_loop (statements doc) [], cw'))"

section \<open>Writing CSV and JSON\<close>

text \<open>
  The header of a CSV file: the set of the keys of all records, sorted (lines 162 to 165).
\<close>

definition fieldnames_of :: "pydict list \<Rightarrow> string list" where
  "fieldnames_of records =
     sorted_list_of_set (foldl (\<lambda>fieldnames r. fieldnames \<union> set (keys r)) {} records)"

text \<open>
  \<^verbatim>\<open>csv.DictWriter\<close> with \<^verbatim>\<open>extrasaction='ignore'\<close> and the default \<^verbatim>\<open>restval=''\<close>
  turns a record into \<^verbatim>\<open>[rowdict.get(key, '') for key in fieldnames]\<close>.  The writer
  under it prints \<^verbatim>\<open>None\<close> as the empty text, a string as it is and anything else through
  \<^verbatim>\<open>str()\<close>.  A file is kept as its rows of cell texts; quoting and line ends are the
  \<^verbatim>\<open>csv\<close> module's business.
\<close>

definition dict_to_list :: "string list \<Rightarrow> pydict \<Rightarrow> pyval list" where
  "dict_to_list fieldnames rowdict =
     map (\<lambda>key. case map_of rowdict key of Some v \<Rightarrow> v | None \<Rightarrow> PStr []) fieldnames"

definition csv_field :: "env \<Rightarrow> pyval \<Rightarrow> string" where
  "csv_field E v =
     (case v of
        PNone \<Rightarrow> []
      | PStr s \<Rightarrow> s
      | PInt i \<Rightarrow> str_int i
      | PBool b \<Rightarrow> (if b then ''True'' else ''False'')
      | _ \<Rightarrow> py_str E v)"

definition csv_rows :: "env \<Rightarrow> pydict list \<Rightarrow> string list list" where
  "csv_rows E records =
     (let fieldnames = fieldnames_of records
      in fieldnames # map (\<lambda>r. map (csv_field E) (dict_to_list fieldnames r)) records)"

definition to_csv ::
    "env \<Rightarrow> string option \<Rightarrow> converter \<times> world \<Rightarrow> (error + string) \<times> converter \<times> world" where
  "to_csv E output cw =
     (let output_file = (case output of
                           None \<Rightarrow> with_suffix E (input_file (fst cw)) ''.csv''
                         | Some p \<Rightarrow> p)
      in case extract_transactions E cw of
           (Inl e, cw1) \<Rightarrow> (Inl e, cw1)
         | (Inr trxs, c1, w1) \<Rightarrow>
             if trxs = [] then (Inl (ValueError ''No transactions found in OFX file''), c1, w1)
             else
               (let w2 = write_file output_file (CsvFile (csv_rows E trxs)) w1
                in case extract_positions E (c1, w2) of
                     (Inl e, cw3) \<Rightarrow> (Inl e, cw3)
                   | (Inr poss, c3, w3) \<Rightarrow>
                       if poss \<noteq> []
                       then (Inr output_file, c3,
                             write_file (with_suffix E output_file ''.positions.csv'')
                               (CsvFile (csv_rows E poss)) w3)
                       else (Inr output_file, c3, w3)))"

text \<open>
  \<^verbatim>\<open>to_json\<close>: the document is the dictionary handed to \<^verbatim>\<open>json.dump\<close>, kept with its
  \<^verbatim>\<open>indent\<close> argument.
\<close>

definition to_json ::
    "env \<Rightarrow> string option \<Rightarrow> int \<Rightarrow> converter \<times> world
       \<Rightarrow> (error + string) \<times> converter \<times> world" where
  "to_json E output indent cw =
     (let output_file = (case output of
                           None \<Rightarrow> with_suffix E (input_file (fst cw)) ''.json''
                         | Some p \<Rightarrow> p)
      in case extract_transactions E cw of
           (Inl e, cw1) \<Rightarrow> (Inl e, cw1)
         | (Inr trxs, cw1) \<Rightarrow>
             if trxs = [] then (Inl (ValueError ''No transactions found in OFX file''), cw1)
             else
               (let data = [(''transactions'', trxs)]
                in case extract_positions E cw1 of
                     (Inl e, cw2) \<Rightarrow> (Inl e, cw2)
                   | (Inr poss, c2, w2) \<Rightarrow>
                       (let data' = (if poss \<noteq> [] then data @ [(''positions'', poss)] else data)
                        in (Inr output_file, c2,
                            write_file output_file
                              (JsonFile (if indent > 0 then Some indent else None) data') w2))))"

section \<open>The entry point\<close>

text \<open>
  \<^verbatim>\<open>str.lower()\<close> on the characters a \<open>char\<close> can hold: the ASCII capitals and the
  capitals of Latin-1 move down by 32, every other character stays.
\<close>

definition lower_char :: "char \<Rightarrow> char" where
  "lower_char c =
     (let n = (of_char c :: nat)
      in if (65 \<le> n \<and> n \<le> 90) \<or> (192 \<le> n \<and> n \<le> 222 \<and> n \<noteq> 215) then char_of (n + 32) else c)"

definition lower :: "string \<Rightarrow> string" where
  "lower s = map lower_char s"

definition unsupported_format :: "string \<Rightarrow> error" where
  "unsupported_format output_format =
     ValueError (''Unsupported output format: '' @ output_format @ ''. Use '' @
                 quoted ''csv'' @ '' or '' @ quoted ''json'' @ ''.'')"

definition convert_qfx ::
    "env \<Rightarrow> string \<Rightarrow> string \<Rightarrow> string option \<Rightarrow> world \<Rightarrow> (error + string) \<times> world" where
  "convert_qfx E input output_format output w =
     (case QFXConverter_init w input of
        Inl e \<Rightarrow> (Inl e, w)
      | Inr converter \<Rightarrow>
          if lower output_format = ''csv''
          then (case to_csv E output (converter, w) of (r, c', w') \<Rightarrow> (r, w'))
          else if lower output_format = ''json''
          then (case to_json E output 2 (converter, w) of (r, c', w') \<Rightarrow> (r, w'))
          else (Inl (unsupported_format output_format), w))"

section \<open>Notions used to state the properties\<close>

text \<open>
  \<open>contributes a k\<close>: the attribute \<open>a\<close> of a flattened object puts a field named \<open>k\<close>
  into the record.  A private or callable or null attribute contributes nothing, a
  temporal, decimal or primitive one its own name, an object with a \<^verbatim>\<open>__dict__\<close> the
  derived names of the identifier attributes it has.
\<close>

definition contributes :: "string \<times> pyval \<Rightarrow> string \<Rightarrow> bool" where
  "contributes a k =
     (case a of (n, v) \<Rightarrow>
        \<not> startswith_underscore n \<and>
        (case v of
           PNone \<Rightarrow> False
         | PCallable \<Rightarrow> False
         | POther \<Rightarrow> False
         | PObject attrs \<Rightarrow>
             (k = n @ ''_uniqueid'' \<and> getattr attrs ''uniqueid'' \<noteq> None) \<or>
             (k = n @ ''_uniqueidtype'' \<and> getattr attrs ''uniqueidtype'' \<noteq> None)
         | _ \<Rightarrow> k = n))"

text \<open>
  The error of \<^verbatim>\<open>float()\<close> on a signalling NaN; \<open>raising a\<close>: the attribute \<open>a\<close> is one the
  loop converts with \<^verbatim>\<open>float()\<close> and its value is a signalling NaN; \<open>flattens obj\<close>: no
  attribute of \<open>obj\<close> is such a one.
\<close>

definition float_error :: error where
  "float_error = ValueError ''cannot convert signaling NaN to float''"

definition raising :: "string \<times> pyval \<Rightarrow> bool" where
  "raising a = (case a of (n, v) \<Rightarrow> \<not> startswith_underscore n \<and> v = PDecimal DSNaN)"

definition flattens :: "pyobj \<Rightarrow> bool" where
  "flattens obj = list_all (\<lambda>a. \<not> raising a) obj"

text \<open>
  The transactions of one statement and what flattening makes of each, in source order;
  \<open>document_flattens\<close>: every transaction of every statement flattens.  \<open>collect\<close> turns a
  list of results into the first error, or the list of the values when there is none.
\<close>

definition statement_transactions :: "statement \<Rightarrow> pyobj list" where
  "statement_transactions s = (case transactions s of None \<Rightarrow> [] | Some ts \<Rightarrow> ts)"

definition statement_records :: "statement \<Rightarrow> (error + pydict) list" where
  "statement_records s =
     map (\<lambda>trx. transaction_to_dict trx (transaction_account_info (account s)))
       (statement_transactions s)"

definition document_flattens :: "ofx \<Rightarrow> bool" where
  "document_flattens doc =
     list_all (\<lambda>s. list_all flattens (statement_transactions s)) (statements doc)"

fun collect :: "(error + 'a) list \<Rightarrow> error + 'a list" where
  "collect [] = Inr []"
| "collect (Inl e # rs) = Inl e"
| "collect (Inr x # rs) = (case collect rs of Inl e \<Rightarrow> Inl e | Inr xs \<Rightarrow> Inr (x # xs))"

text \<open>The error of an empty conversion, the path a conversion writes, and the text of
  the cell a record has under a header field.\<close>

definition no_transactions :: error where
  "no_transactions = ValueError ''No transactions found in OFX file''"

definition output_path :: "env \<Rightarrow> string option \<Rightarrow> converter \<Rightarrow> string \<Rightarrow> string" where
  "output_path E output c suffix =
     (case output of None \<Rightarrow> with_suffix E (input_file c) suffix | Some p \<Rightarrow> p)"


text \<open>
  Rounding to two decimal places, as the specification compares a converted amount with
  the original: the nearest multiple of \<open>1 / 100\<close>, a tie going to the even one (what
  \<^verbatim>\<open>round(x, 2)\<close> does with the exact value of \<open>x\<close>).  The converter itself never rounds.
\<close>

definition round2 :: "rat \<Rightarrow> rat" where
  "round2 x = of_int (round_half_even (x * 100)) / 100"



section \<open>Example data\<close>

text \<open>
  A document with one bank statement (two transactions, one position) and one credit card
  statement without transactions.  In the example environment the parser returns the given
  document for every file of bytes.
\<close>

definition demo_env :: "ofx \<Rightarrow> env" where
  "demo_env doc =
     \<lparr>ofx_parse = (\<lambda>c. case c of Bytes b \<Rightarrow> Inr doc | _ \<Rightarrow> Inl ''not an OFX file''),
      py_str = (\<lambda>v. ''?''),
      with_suffix = (\<lambda>p s. takeWhile (\<lambda>c. c \<noteq> CHR ''.'') p @ s)\<rparr>"

definition demo_account :: pyobj where
  "demo_account =
     [(''acctid'', PStr ''123456''), (''accttype'', PStr ''CHECKING''),
      (''bankid'', PStr ''000000123'')]"

definition demo_trx1 :: pyobj where
  "demo_trx1 =
     [(''dtposted'', PDatetime \<lparr>year = 2024, month = 1, day = 15, hour = 12, minute = 0,
                                second = 0, microsecond = 0, utcoffset = Some 0\<rparr>),
      (''fitid'', PStr ''1001''),
      (''memo'', PNone),
      (''trnamt'', PDecimal (Decimal (- 2317) (- 2))),
      (''trntype'', PStr ''DEBIT'')]"

definition demo_trx2 :: pyobj where
  "demo_trx2 =
     [(''fitid'', PStr ''1002''),
      (''trnamt'', PDecimal (Decimal (- 10000) (- 2))),
      (''trntype'', PStr ''DEBIT'')]"

definition demo_pos :: pyobj where
  "demo_pos =
     [(''secid'', PObject [(''uniqueid'', PStr ''037833100''), (''uniqueidtype'', PStr ''CUSIP'')]),
      (''units'', PInt 100)]"

definition demo_doc :: ofx where
  "demo_doc =
     \<lparr>statements =
        [\<lparr>account = demo_account, transactions = Some [demo_trx1, demo_trx2],
          positions = Some [demo_pos]\<rparr>,
         \<lparr>account = [(''acctid'', PStr ''4111'')], transactions = Some [],
          positions = None\<rparr>]\<rparr>"

definition demo_world :: world where
  "demo_world = \<lparr>files = [''stmt.ofx'' \<mapsto> Bytes ''OFXHEADER:100''], parser_calls = 0\<rparr>"

definition demo_converter :: converter where
  "demo_converter = \<lparr>input_file = ''stmt.ofx'', ofx_data = Some demo_doc, parsed = True\<rparr>"

definition demo_empty_doc :: ofx where
  "demo_empty_doc =
     \<lparr>statements =
        [\<lparr>account = demo_account, transactions = None, positions = None\<rparr>,
         \<lparr>account = [(''acctid'', PStr ''4111'')], transactions = Some [], positions = None\<rparr>]\<rparr>"

definition demo_fresh :: converter where
  "demo_fresh = \<lparr>input_file = ''stmt.ofx'', ofx_data = None, parsed = False\<rparr>"



definition demo_time :: datetime where
  "demo_time = \<lparr>year = 2024, month = 1, day = 15, hour = 12, minute = 0, second = 0,
                  microsecond = 0, utcoffset = Some 0\<rparr>"

text \<open>A statement whose only transaction has a signalling NaN for its amount.\<close>

definition demo_nan_trx :: pyobj where
  "demo_nan_trx = [(''fitid'', PStr ''1003''), (''trnamt'', PDecimal DSNaN)]"

definition demo_nan_doc :: ofx where
  "demo_nan_doc =
     \<lparr>statements =
        [\<lparr>account = demo_account, transactions = Some [demo_nan_trx], positions = None\<rparr>]\<rparr>"

text \<open>The records the example objects are flattened into.\<close>

definition demo_record1 :: pydict where
  "demo_record1 =
     [(''account_id'', PStr ''123456''), (''account_type'', PStr ''CHECKING''),
      (''bank_id'', PStr ''000000123''),
      (''dtposted'', PStr (isoformat demo_time)), (''fitid'', PStr ''1001''),
      (''trnamt'', PFloat (float_of_rat (decimal_value (- 2317) (- 2)))),
      (''trntype'', PStr ''DEBIT'')]"

definition demo_record2 :: pydict where
  "demo_record2 =
     [(''account_id'', PStr ''123456''), (''account_type'', PStr ''CHECKING''),
      (''bank_id'', PStr ''000000123''), (''fitid'', PStr ''1002''),
      (''trnamt'', PFloat (float_of_rat (decimal_value (- 10000) (- 2)))),
      (''trntype'', PStr ''DEBIT'')]"

definition demo_position_record :: pydict where
  "demo_position_record =
     [(''account_id'', PStr ''123456''), (''broker_id'', PStr []),
      (''secid_uniqueid'', PStr ''037833100''), (''secid_uniqueidtype'', PStr ''CUSIP''),
      (''units'', PInt 100)]"


section \<open>Dictionaries\<close>

declare flatten_attr.simps [simp del]

lemma map_of_setitem: "map_of (setitem d k v) = (map_of d)(k \<mapsto> v)"
  by (simp add: setitem_def update_conv')

lemma keys_setitem: "set (keys (setitem d k v)) = insert k (set (keys d))"
  using dom_update [of k v d] by (simp add: setitem_def keys_def)

lemma keys_simps: "keys [] = []" "keys (p # ps) = fst p # keys ps"
  by (simp_all add: keys_def)

lemma keys_dict_update: "set (keys (dict_update d other)) = set (keys d) \<union> set (keys other)"
  unfolding dict_update_def
proof (induction other arbitrary: d)
  case Nil
  then show ?case by (simp add: keys_simps)
next
  case (Cons a other)
  obtain k v where a: "a = (k, v)" by (cases a)
  have "set (keys (foldl (\<lambda>acc (k, v). setitem acc k v) (setitem d k v) other)) =
        set (keys (setitem d k v)) \<union> set (keys other)"
    by (rule Cons.IH)
  then show ?case by (simp add: a keys_setitem keys_simps)
qed

lemma dict_update_tai: "dict_update [] (transaction_account_info a) = transaction_account_info a"
  by (simp add: dict_update_def transaction_account_info_def setitem_def)

lemma dict_update_pai: "dict_update [] (position_account_info a) = position_account_info a"
  by (simp add: dict_update_def position_account_info_def setitem_def)

section \<open>Results in sequence\<close>

lemma collect_Inr_iff: "collect rs = Inr xs \<longleftrightarrow> rs = map Inr xs"
proof (induction rs arbitrary: xs)
  case Nil
  then show ?case by auto
next
  case (Cons r rs)
  show ?case
  proof (cases r)
    case (Inl e)
    then show ?thesis by auto
  next
    case (Inr x)
    then show ?thesis using Cons.IH by (cases xs; cases "collect rs") auto
  qed
qed

lemma collect_Inl: "collect rs = Inl e \<Longrightarrow> Inl e \<in> set rs"
proof (induction rs)
  case Nil
  then show ?case by simp
next
  case (Cons r rs)
  then show ?case by (cases r) (auto split: sum.splits)
qed

lemma collect_append:
  "collect (xs @ ys) =
     (case collect xs of
        Inl e \<Rightarrow> Inl e
      | Inr as \<Rightarrow> (case collect ys of Inl e \<Rightarrow> Inl e | Inr bs \<Rightarrow> Inr (as @ bs)))"
proof (induction xs)
  case Nil
  then show ?case by (simp split: sum.splits)
next
  case (Cons r xs)
  then show ?case by (cases r) (simp_all split: sum.splits)
qed

lemma collect_all_Inr:
  assumes "\<forall>r \<in> set rs. \<exists>x. r = Inr x"
  shows "\<exists>xs. collect rs = Inr xs"
proof (cases "collect rs")
  case (Inl e)
  from collect_Inl [OF this] assms show ?thesis by auto
next
  case (Inr xs)
  then show ?thesis by blast
qed

section \<open>What one attribute does to the record\<close>

lemma float_of_decimal_Inl: "float_of_decimal x = Inl e \<longleftrightarrow> x = DSNaN \<and> e = float_error"
  by (cases x) (auto simp: float_of_decimal_def float_error_def)

lemma flatten_attr_decimal:
  "\<not> startswith_underscore n \<Longrightarrow>
   flatten_attr d (n, PDecimal x) =
     (case float_of_decimal x of Inl e \<Rightarrow> Inl e | Inr f \<Rightarrow> Inr (setitem d n (PFloat f)))"
  by (simp add: flatten_attr.simps)

lemma flatten_attr_Inl: "flatten_attr d a = Inl e \<longleftrightarrow> raising a \<and> e = float_error"
proof -
  obtain n v where a: "a = (n, v)" by (cases a)
  show ?thesis
  proof (cases "startswith_underscore n")
    case True
    then show ?thesis by (simp add: a raising_def flatten_attr.simps)
  next
    case False
    show ?thesis
    proof (cases v)
      case (PDecimal x)
      show ?thesis
        using float_of_decimal_Inl [of x e] False
        by (auto simp: a PDecimal raising_def flatten_attr_decimal [OF False] split: sum.splits)
    qed (simp_all add: a raising_def flatten_attr.simps Let_def split: option.splits)
  qed
qed

lemma flatten_attr_raising: "raising a \<Longrightarrow> flatten_attr d a = Inl float_error"
  by (simp add: flatten_attr_Inl)

lemma flatten_attr_Inr: "\<not> raising a \<Longrightarrow> \<exists>d'. flatten_attr d a = Inr d'"
  using flatten_attr_Inl [of d a] by (cases "flatten_attr d a") auto

lemma flatten_attr_other_key:
  "flatten_attr d (n, v) = Inr d' \<Longrightarrow>
   k \<noteq> n \<Longrightarrow> k \<noteq> n @ ''_uniqueid'' \<Longrightarrow> k \<noteq> n @ ''_uniqueidtype''
   \<Longrightarrow> map_of d' k = map_of d k"
  by (cases v)
     (auto simp: flatten_attr.simps map_of_setitem Let_def split: option.splits sum.splits if_splits)

lemma attributes_loop_preserve:
  "attributes_loop xs d = Inr r \<Longrightarrow>
   \<forall>(n, v) \<in> set xs. k \<noteq> n \<and> k \<noteq> n @ ''_uniqueid'' \<and> k \<noteq> n @ ''_uniqueidtype''
   \<Longrightarrow> map_of r k = map_of d k"
proof (induction xs arbitrary: d)
  case Nil
  then show ?case by simp
next
  case (Cons a xs)
  obtain n v where a: "a = (n, v)" by (cases a)
  from Cons.prems(1) obtain d' where d': "flatten_attr d a = Inr d'"
    and r: "attributes_loop xs d' = Inr r"
    by (auto split: sum.splits)
  from Cons.prems(2) a have "map_of d' k = map_of d k"
    using flatten_attr_other_key [OF d' [unfolded a]] by simp
  moreover from Cons.prems(2) have "map_of r k = map_of d' k"
    by (intro Cons.IH [OF r]) simp
  ultimately show ?case by simp
qed

lemma flatten_attr_own_key:
  "\<not> startswith_underscore k \<Longrightarrow> flatten_attr d (k, v) = Inr d' \<Longrightarrow>
   (case v of
      PDatetime t \<Rightarrow> map_of d' k = Some (PStr (isoformat t))
    | PDecimal x \<Rightarrow> (\<exists>f. float_of_decimal x = Inr f \<and> map_of d' k = Some (PFloat f))
    | PStr s \<Rightarrow> map_of d' k = Some v
    | PInt i \<Rightarrow> map_of d' k = Some v
    | PFloat f \<Rightarrow> map_of d' k = Some v
    | PBool b \<Rightarrow> map_of d' k = Some v
    | _ \<Rightarrow> map_of d' k = map_of d k)"
  by (cases v)
     (auto simp: flatten_attr.simps map_of_setitem Let_def split: option.splits sum.splits)

lemma keys_flatten_attr_eq:
  assumes "flatten_attr d a = Inr d'"
  shows "set (keys d') = set (keys d) \<union> {k. contributes a k}"
proof -
  obtain n v where a: "a = (n, v)" by (cases a)
  show ?thesis
    using assms unfolding a contributes_def
    by (cases v)
       (auto simp: flatten_attr.simps keys_setitem Let_def split: option.splits sum.splits if_splits)
qed

lemma keys_attributes_loop:
  "attributes_loop obj d = Inr r \<Longrightarrow>
   set (keys r) = set (keys d) \<union> {k. \<exists>a \<in> set obj. contributes a k}"
proof (induction obj arbitrary: d)
  case Nil
  then show ?case by simp
next
  case (Cons a obj)
  from Cons.prems obtain d' where d': "flatten_attr d a = Inr d'"
    and r: "attributes_loop obj d' = Inr r"
    by (auto split: sum.splits)
  have "set (keys r) = set (keys d') \<union> {k. \<exists>a \<in> set obj. contributes a k}"
    by (rule Cons.IH [OF r])
  then show ?case by (auto simp: keys_flatten_attr_eq [OF d'])
qed

lemma flatten_attr_object:
  "\<not> startswith_underscore n \<Longrightarrow>
   flatten_attr d (n, PObject attrs) =
     Inr (dict_update d
       ((case getattr attrs ''uniqueid'' of Some u \<Rightarrow> [(n @ ''_uniqueid'', u)] | None \<Rightarrow> []) @
        (case getattr attrs ''uniqueidtype'' of Some u \<Rightarrow> [(n @ ''_uniqueidtype'', u)] | None \<Rightarrow> [])))"
  by (simp add: flatten_attr.simps dict_update_def Let_def split: option.splits)

lemma flatten_attr_object_fields:
  "\<exists>fs. flatten_attr d (n, PObject attrs) = Inr (dict_update d fs) \<and> length fs \<le> 2 \<and>
        set (keys fs) \<subseteq> {n @ ''_uniqueid'', n @ ''_uniqueidtype''}"
proof (cases "startswith_underscore n")
  case True
  then have "flatten_attr d (n, PObject attrs) = Inr (dict_update d [])"
    by (simp add: flatten_attr.simps dict_update_def)
  then show ?thesis by (intro exI [of _ "[]"]) (simp add: keys_simps)
next
  case False
  show ?thesis
    by (intro exI [of _ "(case getattr attrs ''uniqueid'' of Some u \<Rightarrow> [(n @ ''_uniqueid'', u)] | None \<Rightarrow> []) @
        (case getattr attrs ''uniqueidtype'' of Some u \<Rightarrow> [(n @ ''_uniqueidtype'', u)] | None \<Rightarrow> [])"])
       (simp add: flatten_attr_object [OF False] keys_def split: option.splits)
qed

lemma flatten_attr_own_key_object:
  "\<exists>d'. flatten_attr d (n, PObject attrs) = Inr d' \<and> map_of d' n = map_of d n"
  by (simp add: flatten_attr.simps map_of_setitem Let_def split: option.splits)

section \<open>The loop over the attributes\<close>

lemma attributes_loop_Inl: "attributes_loop obj d = Inl e \<longleftrightarrow> \<not> flattens obj \<and> e = float_error"
proof (induction obj arbitrary: d)
  case Nil
  then show ?case by (simp add: flattens_def)
next
  case (Cons a obj)
  show ?case
  proof (cases "raising a")
    case True
    then show ?thesis by (auto simp: flatten_attr_raising flattens_def)
  next
    case False
    from flatten_attr_Inr [OF this] obtain d' where "flatten_attr d a = Inr d'" by blast
    then show ?thesis using Cons.IH [of d'] False by (simp add: flattens_def)
  qed
qed

lemma attributes_loop_Inr: "(\<exists>r. attributes_loop obj d = Inr r) \<longleftrightarrow> flattens obj"
  using attributes_loop_Inl [of obj d] by (cases "attributes_loop obj d") auto

lemma attributes_loop_append:
  "attributes_loop (xs @ ys) d =
     (case attributes_loop xs d of Inl e \<Rightarrow> Inl e | Inr d' \<Rightarrow> attributes_loop ys d')"
  by (induction xs arbitrary: d) (simp_all split: sum.splits)

section \<open>Account fields\<close>

lemma account_key_not_derived:
  "k \<in> {''account_id'', ''account_type'', ''bank_id'', ''broker_id''}
   \<Longrightarrow> k \<noteq> n @ ''_uniqueid'' \<and> k \<noteq> n @ ''_uniqueidtype''"
proof -
  have e: "\<And>s. k = n @ s \<Longrightarrow> drop (length k - length s) k = s" by simp
  assume "k \<in> {''account_id'', ''account_type'', ''bank_id'', ''broker_id''}"
  then consider "k = ''account_id''" | "k = ''account_type''" | "k = ''bank_id''" | "k = ''broker_id''"
    by auto
  then show ?thesis
  proof cases
    case 1 then show ?thesis using e [of "''_uniqueid''"] e [of "''_uniqueidtype''"] by auto
  next
    case 2 then show ?thesis using e [of "''_uniqueid''"] e [of "''_uniqueidtype''"] by auto
  next
    case 3 then show ?thesis using e [of "''_uniqueid''"] e [of "''_uniqueidtype''"] by auto
  next
    case 4 then show ?thesis using e [of "''_uniqueid''"] e [of "''_uniqueidtype''"] by auto
  qed
qed

lemma account_key_public:
  "k \<in> {''account_id'', ''account_type'', ''bank_id'', ''broker_id''} \<Longrightarrow> \<not> startswith_underscore k"
  by auto

lemma attributes_loop_account_key:
  assumes "distinct (map fst obj)" and "(k, v) \<in> set obj"
    and "k \<in> {''account_id'', ''account_type'', ''bank_id'', ''broker_id''}"
    and "attributes_loop obj d = Inr r"
  shows "(case v of
      PDatetime t \<Rightarrow> map_of r k = Some (PStr (isoformat t))
    | PDecimal x \<Rightarrow> (\<exists>f. float_of_decimal x = Inr f \<and> map_of r k = Some (PFloat f))
    | PStr s \<Rightarrow> map_of r k = Some v
    | PInt i \<Rightarrow> map_of r k = Some v
    | PFloat f \<Rightarrow> map_of r k = Some v
    | PBool b \<Rightarrow> map_of r k = Some v
    | _ \<Rightarrow> map_of r k = map_of d k)"
proof -
  from assms(2) obtain pre post where split: "obj = pre @ (k, v) # post"
    by (auto simp: in_set_conv_decomp)
  with assms(1) have notin: "k \<notin> fst ` set pre" "k \<notin> fst ` set post"
    by auto
  have nd: "\<And>n. k \<noteq> n @ ''_uniqueid'' \<and> k \<noteq> n @ ''_uniqueidtype''"
    using account_key_not_derived [OF assms(3)] by blast
  from assms(4) obtain d1 d2 where d1: "attributes_loop pre d = Inr d1"
    and d2: "flatten_attr d1 (k, v) = Inr d2"
    and r: "attributes_loop post d2 = Inr r"
    by (auto simp: split attributes_loop_append split: sum.splits)
  have pre: "map_of d1 k = map_of d k"
    using notin(1) nd by (intro attributes_loop_preserve [OF d1]) force
  have post: "map_of r k = map_of d2 k"
    using notin(2) nd by (intro attributes_loop_preserve [OF r]) force
  show ?thesis
    using flatten_attr_own_key [OF account_key_public [OF assms(3)] d2]
    by (simp add: pre post split: pyval.splits)
qed

lemma transaction_to_dict_Inl:
  "transaction_to_dict obj account_info = Inl e \<longleftrightarrow> \<not> flattens obj \<and> e = float_error"
  by (simp add: transaction_to_dict_def attributes_loop_Inl)

lemma position_to_dict_Inl:
  "position_to_dict obj account_info = Inl e \<longleftrightarrow> \<not> flattens obj \<and> e = float_error"
  by (simp add: position_to_dict_def attributes_loop_Inl)

section \<open>Aggregation\<close>

lemma append_transactions_eq:
  "append_transactions ts account_info acc =
     (case collect (map (\<lambda>trx. transaction_to_dict trx account_info) ts) of
        Inl e \<Rightarrow> Inl e
      | Inr rs \<Rightarrow> Inr (acc @ rs))"
proof (induction ts arbitrary: acc)
  case Nil
  then show ?case by simp
next
  case (Cons t ts)
  then show ?case
    by (cases "transaction_to_dict t account_info") (simp_all split: sum.splits)
qed

lemma transactions_loop_eq:
  "transactions_loop ss acc =
     (case collect (concat (map statement_records ss)) of
        Inl e \<Rightarrow> Inl e
      | Inr rs \<Rightarrow> Inr (acc @ rs))"
proof (induction ss arbitrary: acc)
  case Nil
  then show ?case by simp
next
  case (Cons s ss)
  show ?case
    by (simp add: Cons.IH statement_records_def statement_transactions_def Let_def
        append_transactions_eq collect_append split: option.splits sum.splits)
qed

lemma transactions_loop_collect:
  "transactions_loop ss [] = collect (concat (map statement_records ss))"
  by (simp add: transactions_loop_eq split: sum.splits)

lemma append_positions_Inl:
  "append_positions ps account_info acc = Inl e \<Longrightarrow> e = float_error"
proof (induction ps arbitrary: acc)
  case Nil
  then show ?case by simp
next
  case (Cons p ps)
  then show ?case
    by (cases "position_to_dict p account_info") (auto simp: position_to_dict_Inl)
qed

lemma positions_loop_Inl: "positions_loop ss acc = Inl e \<Longrightarrow> e = float_error"
proof (induction ss arbitrary: acc)
  case Nil
  then show ?case by simp
next
  case (Cons s ss)
  then show ?case
    by (auto simp: Let_def split: option.splits sum.splits dest: append_positions_Inl)
qed

lemma statement_records_Inl:
  "Inl e \<in> set (concat (map statement_records ss)) \<Longrightarrow> e = float_error"
  by (auto simp: statement_records_def) (metis transaction_to_dict_Inl)

lemma transactions_loop_Inl: "transactions_loop ss [] = Inl e \<Longrightarrow> e = float_error"
  using collect_Inl [of "concat (map statement_records ss)" e] statement_records_Inl [of e ss]
  by (simp add: transactions_loop_collect)

lemma document_flattens_iff:
  "document_flattens doc \<longleftrightarrow>
     (\<forall>r \<in> set (concat (map statement_records (statements doc))). \<exists>x. r = Inr x)"
proof -
  have "\<And>t ai. (\<exists>x. transaction_to_dict t ai = Inr x) \<longleftrightarrow> flattens t"
    by (simp add: transaction_to_dict_def attributes_loop_Inr)
  then show ?thesis
    by (auto simp: document_flattens_def statement_records_def list_all_iff)
qed

lemma length_statement_records:
  "length (concat (map statement_records ss)) = (\<Sum>s\<leftarrow>ss. length (statement_transactions s))"
  by (simp add: length_concat statement_records_def comp_def)

lemma transactions_loop_empty:
  "transactions_loop ss [] = Inr [] \<longleftrightarrow> (\<forall>s \<in> set ss. statement_transactions s = [])"
  by (auto simp: transactions_loop_collect collect_Inr_iff statement_records_def)

lemma demo_parse:
  "ensure_parsed (demo_env doc) (demo_fresh, demo_world) =
     (Inr doc, demo_fresh\<lparr>ofx_data := Some doc, parsed := True\<rparr>,
      demo_world\<lparr>parser_calls := 1\<rparr>)"
  by (simp add: ensure_parsed_def parse_def demo_fresh_def demo_world_def demo_env_def)

lemma demo_flatten1:
  "transaction_to_dict demo_trx1 (transaction_account_info demo_account) = Inr demo_record1"
  by (simp add: transaction_to_dict_def dict_update_def demo_trx1_def demo_account_def
      transaction_account_info_def getattr_default_def getattr_def flatten_attr.simps setitem_def
      float_of_decimal_def demo_time_def demo_record1_def)

lemma demo_flatten2:
  "transaction_to_dict demo_trx2 (transaction_account_info demo_account) = Inr demo_record2"
  by (simp add: transaction_to_dict_def dict_update_def demo_trx2_def demo_account_def
      transaction_account_info_def getattr_default_def getattr_def flatten_attr.simps setitem_def
      float_of_decimal_def demo_record2_def)

lemma demo_flatten_pos:
  "position_to_dict demo_pos (position_account_info demo_account) = Inr demo_position_record"
  by (simp add: position_to_dict_def dict_update_def demo_pos_def demo_account_def
      position_account_info_def getattr_default_def getattr_def flatten_attr.simps setitem_def
      demo_position_record_def)


lemma demo_statements:
  "statements demo_doc =
        [\<lparr>account = demo_account, transactions = Some [demo_trx1, demo_trx2],
          positions = Some [demo_pos]\<rparr>,
         \<lparr>account = [(''acctid'', PStr ''4111'')], transactions = Some [],
          positions = None\<rparr>]"
  by (simp add: demo_doc_def)

lemma demo_transactions:
  "transactions_loop (statements demo_doc) [] = Inr [demo_record1, demo_record2]"
  by (simp add: demo_statements Let_def demo_flatten1 demo_flatten2)

lemma demo_positions:
  "positions_loop (statements demo_doc) [] = Inr [demo_position_record]"
  by (simp add: demo_statements Let_def demo_flatten_pos)

lemma demo_nan_record:
  "transaction_to_dict demo_nan_trx account_info = Inl float_error"
  "position_to_dict demo_nan_trx account_info = Inl float_error"
  by (simp_all add: transaction_to_dict_Inl position_to_dict_Inl flattens_def raising_def
      demo_nan_trx_def)

lemma demo_flattens: "document_flattens demo_doc"
  by (simp add: document_flattens_def demo_doc_def statement_transactions_def flattens_def
      raising_def demo_trx1_def demo_trx2_def)

section \<open>Flattened records: claims C1, C2 and C4\<close>

text \<open>
  Claim C1, as the code has it.  The account context is written first, and the loop over
  the attributes then assigns with \<^verbatim>\<open>trx_dict[attr_name] = ...\<close>, which replaces a value
  that is already there.  So when an object has an attribute named like an account field
  (\<^verbatim>\<open>account_id\<close>, \<^verbatim>\<open>account_type\<close>, \<^verbatim>\<open>bank_id\<close>, \<^verbatim>\<open>broker_id\<close>) and its value is
  temporal, decimal or primitive, the record holds the normalized value of the attribute;
  the account context value stays only when the attribute is null, callable or an object.
  The names \<^verbatim>\<open>dir\<close> lists are distinct.  This holds of every record the flattening
  returns, and it returns one whenever no attribute is a signalling NaN.
\<close>

theorem account_field_taken_from_attribute:
  assumes "distinct (map fst obj)" and "(k, v) \<in> set obj"
    and "k \<in> {''account_id'', ''account_type'', ''bank_id'', ''broker_id''}"
  shows
    "(flattens obj \<longrightarrow>
        (\<exists>r. transaction_to_dict obj (transaction_account_info acct) = Inr r) \<and>
        (\<exists>r. position_to_dict obj (position_account_info acct) = Inr r)) \<and>
     (\<forall>r. transaction_to_dict obj (transaction_account_info acct) = Inr r \<longrightarrow>
        (case v of
           PDatetime t \<Rightarrow> map_of r k = Some (PStr (isoformat t))
         | PDecimal x \<Rightarrow> (\<exists>f. float_of_decimal x = Inr f \<and> map_of r k = Some (PFloat f))
         | PStr s \<Rightarrow> map_of r k = Some v
         | PInt i \<Rightarrow> map_of r k = Some v
         | PFloat f \<Rightarrow> map_of r k = Some v
         | PBool b \<Rightarrow> map_of r k = Some v
         | _ \<Rightarrow> map_of r k = map_of (transaction_account_info acct) k)) \<and>
     (\<forall>r. position_to_dict obj (position_account_info acct) = Inr r \<longrightarrow>
        (case v of
           PDatetime t \<Rightarrow> map_of r k = Some (PStr (isoformat t))
         | PDecimal x \<Rightarrow> (\<exists>f. float_of_decimal x = Inr f \<and> map_of r k = Some (PFloat f))
         | PStr s \<Rightarrow> map_of r k = Some v
         | PInt i \<Rightarrow> map_of r k = Some v
         | PFloat f \<Rightarrow> map_of r k = Some v
         | PBool b \<Rightarrow> map_of r k = Some v
         | _ \<Rightarrow> map_of r k = map_of (position_account_info acct) k))"
proof (intro conjI allI impI)
  assume "flattens obj"
  then show "\<exists>r. transaction_to_dict obj (transaction_account_info acct) = Inr r"
    by (simp add: transaction_to_dict_def attributes_loop_Inr)
  from \<open>flattens obj\<close> show "\<exists>r. position_to_dict obj (position_account_info acct) = Inr r"
    by (simp add: position_to_dict_def attributes_loop_Inr)
next
  fix r
  assume "transaction_to_dict obj (transaction_account_info acct) = Inr r"
  then have "attributes_loop obj (transaction_account_info acct) = Inr r"
    by (simp add: transaction_to_dict_def dict_update_tai)
  from attributes_loop_account_key [OF assms this]
  show "case v of
           PDatetime t \<Rightarrow> map_of r k = Some (PStr (isoformat t))
         | PDecimal x \<Rightarrow> (\<exists>f. float_of_decimal x = Inr f \<and> map_of r k = Some (PFloat f))
         | PStr s \<Rightarrow> map_of r k = Some v
         | PInt i \<Rightarrow> map_of r k = Some v
         | PFloat f \<Rightarrow> map_of r k = Some v
         | PBool b \<Rightarrow> map_of r k = Some v
         | _ \<Rightarrow> map_of r k = map_of (transaction_account_info acct) k" .
next
  fix r
  assume "position_to_dict obj (position_account_info acct) = Inr r"
  then have "attributes_loop obj (position_account_info acct) = Inr r"
    by (simp add: position_to_dict_def dict_update_pai)
  from attributes_loop_account_key [OF assms this]
  show "case v of
           PDatetime t \<Rightarrow> map_of r k = Some (PStr (isoformat t))
         | PDecimal x \<Rightarrow> (\<exists>f. float_of_decimal x = Inr f \<and> map_of r k = Some (PFloat f))
         | PStr s \<Rightarrow> map_of r k = Some v
         | PInt i \<Rightarrow> map_of r k = Some v
         | PFloat f \<Rightarrow> map_of r k = Some v
         | PBool b \<Rightarrow> map_of r k = Some v
         | _ \<Rightarrow> map_of r k = map_of (position_account_info acct) k" .
qed

theorem account_field_taken_from_attribute_witness:
  "flattens [(''account_id'', PStr ''TRX-7''), (''memo'', PStr ''coffee'')] \<and>
   (\<exists>r. transaction_to_dict [(''account_id'', PStr ''TRX-7''), (''memo'', PStr ''coffee'')]
           (transaction_account_info demo_account) = Inr r \<and>
         map_of r ''account_id'' = Some (PStr ''TRX-7'')) \<and>
   (\<exists>r. position_to_dict [(''account_id'', PStr ''TRX-7''), (''memo'', PStr ''coffee'')]
           (position_account_info demo_account) = Inr r \<and>
         map_of r ''account_id'' = Some (PStr ''TRX-7''))"
proof -
  let ?obj = "[(''account_id'', PStr ''TRX-7''), (''memo'', PStr ''coffee'')]"
  have fl: "flattens ?obj" by (simp add: flattens_def raising_def)
  have "distinct (map fst ?obj)" "(''account_id'', PStr ''TRX-7'') \<in> set ?obj"
    "''account_id'' \<in> {''account_id'', ''account_type'', ''bank_id'', ''broker_id''}"
    by simp_all
  from account_field_taken_from_attribute [OF this, of demo_account] fl
  show ?thesis by auto
qed

text \<open>
  Claim C1 as the specification states it (the account context value survives a non-null
  attribute of the same name) fails: a transaction with \<^verbatim>\<open>account_id = 'TRX-7'\<close> in a
  statement of account \<^verbatim>\<open>123456\<close> gives a record whose \<^verbatim>\<open>account_id\<close> is \<^verbatim>\<open>'TRX-7'\<close>.
\<close>

theorem account_context_overwritten_counterexample:
  "transaction_to_dict [(''account_id'', PStr ''TRX-7'')] (transaction_account_info demo_account) =
     Inr [(''account_id'', PStr ''TRX-7''), (''account_type'', PStr ''CHECKING''),
          (''bank_id'', PStr ''000000123'')] \<and>
   map_of [(''account_id'', PStr ''TRX-7''), (''account_type'', PStr ''CHECKING''),
           (''bank_id'', PStr ''000000123'')] ''account_id'' = Some (PStr ''TRX-7'') \<and>
   map_of (transaction_account_info demo_account) ''account_id'' = Some (PStr ''123456'') \<and>
   Some (PStr ''TRX-7'') \<noteq> map_of (transaction_account_info demo_account) ''account_id''"
  by (simp add: transaction_to_dict_def dict_update_def flatten_attr.simps setitem_def
      transaction_account_info_def demo_account_def getattr_default_def getattr_def)

text \<open>
  Claim C2, as the code has it.  For a document that is parsed (already, or by the call
  itself), extraction flattens the transactions of the first statement in their order, then
  those of the second statement, and so on, and stops at the first one that does not
  flatten: nothing is sorted or reordered.  When every transaction flattens, the records
  returned are those of all transactions in this order, their number is the number of
  transactions of all statements, and the list is not empty when some statement has a
  transaction.  When some transaction has a decimal attribute that is a signalling NaN,
  extraction returns no list: it fails with the \<^verbatim>\<open>ValueError\<close> of \<^verbatim>\<open>float()\<close>.
\<close>

theorem extract_transactions_all_in_order:
  assumes "ensure_parsed E cw = (Inr doc, cw')"
  shows "extract_transactions E cw =
           (collect (concat (map statement_records (statements doc))), cw') \<and>
         (document_flattens doc \<longrightarrow>
            (\<exists>rs. extract_transactions E cw = (Inr rs, cw') \<and>
                  map Inr rs = concat (map statement_records (statements doc)) \<and>
                  length rs = (\<Sum>s\<leftarrow>statements doc. length (statement_transactions s)) \<and>
                  ((\<exists>s \<in> set (statements doc). statement_transactions s \<noteq> []) \<longrightarrow> rs \<noteq> []))) \<and>
         (\<not> document_flattens doc \<longrightarrow> extract_transactions E cw = (Inl float_error, cw'))"
proof (intro conjI impI)
  let ?results = "concat (map statement_records (statements doc))"
  show ex: "extract_transactions E cw = (collect ?results, cw')"
    using assms by (simp add: extract_transactions_def transactions_loop_collect)
  {
    assume "document_flattens doc"
    then have "\<forall>r \<in> set ?results. \<exists>x. r = Inr x" by (simp add: document_flattens_iff)
    from collect_all_Inr [OF this] obtain rs where rs: "collect ?results = Inr rs" by blast
    then have m: "map Inr rs = ?results" by (simp add: collect_Inr_iff)
    have "length rs = length (map Inr rs :: (error + pydict) list)" by simp
    also have "\<dots> = (\<Sum>s\<leftarrow>statements doc. length (statement_transactions s))"
      unfolding m by (rule length_statement_records)
    finally have l: "length rs = (\<Sum>s\<leftarrow>statements doc. length (statement_transactions s))" .
    have n: "(\<exists>s \<in> set (statements doc). statement_transactions s \<noteq> []) \<longrightarrow> rs \<noteq> []"
    proof
      assume "\<exists>s \<in> set (statements doc). statement_transactions s \<noteq> []"
      then have "?results \<noteq> []" by (auto simp: statement_records_def)
      with m show "rs \<noteq> []" by auto
    qed
    from ex rs m l n
    show "\<exists>rs. extract_transactions E cw = (Inr rs, cw') \<and>
                  map Inr rs = concat (map statement_records (statements doc)) \<and>
                  length rs = (\<Sum>s\<leftarrow>statements doc. length (statement_transactions s)) \<and>
                  ((\<exists>s \<in> set (statements doc). statement_transactions s \<noteq> []) \<longrightarrow> rs \<noteq> [])"
      by auto
  }
  {
    assume nf: "\<not> document_flattens doc"
    have "collect ?results = Inl float_error"
    proof (cases "collect ?results")
      case (Inl e)
      from collect_Inl [OF this] have "e = float_error" by (rule statement_records_Inl)
      with Inl show ?thesis by simp
    next
      case (Inr rs)
      then have "?results = map Inr rs" by (simp add: collect_Inr_iff)
      then have "document_flattens doc" unfolding document_flattens_iff by auto
      with nf show ?thesis by simp
    qed
    with ex show "extract_transactions E cw = (Inl float_error, cw')" by simp
  }
qed

theorem extract_transactions_all_in_order_witness:
  "ensure_parsed (demo_env demo_doc) (demo_converter, demo_world) =
     (Inr demo_doc, demo_converter, demo_world) \<and>
   document_flattens demo_doc \<and>
   extract_transactions (demo_env demo_doc) (demo_converter, demo_world) =
     (Inr [demo_record1, demo_record2], demo_converter, demo_world) \<and>
   map Inr [demo_record1, demo_record2] =
     [transaction_to_dict demo_trx1 (transaction_account_info demo_account),
      transaction_to_dict demo_trx2 (transaction_account_info demo_account)] \<and>
   (\<Sum>s\<leftarrow>statements demo_doc. length (statement_transactions s)) = 2"
proof -
  have h: "ensure_parsed (demo_env demo_doc) (demo_converter, demo_world) =
     (Inr demo_doc, demo_converter, demo_world)"
    by (simp add: ensure_parsed_def demo_converter_def)
  have s: "(\<Sum>s\<leftarrow>statements demo_doc. length (statement_transactions s)) = 2"
    by (simp add: demo_doc_def statement_transactions_def)
  have c: "concat (map statement_records (statements demo_doc)) =
        [transaction_to_dict demo_trx1 (transaction_account_info demo_account),
         transaction_to_dict demo_trx2 (transaction_account_info demo_account)]"
    by (simp add: demo_doc_def statement_records_def statement_transactions_def)
  from extract_transactions_all_in_order [OF h] demo_flattens obtain rs where
    e: "extract_transactions (demo_env demo_doc) (demo_converter, demo_world) =
          (Inr rs, demo_converter, demo_world)"
    and m: "map Inr rs = concat (map statement_records (statements demo_doc))"
    by blast
  from m have "rs = [demo_record1, demo_record2]"
    unfolding c demo_flatten1 demo_flatten2 by (auto simp: map_eq_Cons_conv)
  with h s e demo_flattens show ?thesis by (simp add: demo_flatten1 demo_flatten2)
qed

text \<open>
  Claim C2 as the specification states it (extraction produces a sequence with one record
  for every transaction of the document) fails for a parsed document with a transaction
  whose amount is a signalling NaN: the document has one transaction and extraction raises
  the \<^verbatim>\<open>ValueError\<close> of \<^verbatim>\<open>float()\<close> instead of returning a sequence.
\<close>

theorem extraction_raises_counterexample:
  "ensure_parsed (demo_env demo_nan_doc) (demo_fresh, demo_world) =
     (Inr demo_nan_doc, demo_fresh\<lparr>ofx_data := Some demo_nan_doc, parsed := True\<rparr>,
      demo_world\<lparr>parser_calls := 1\<rparr>) \<and>
   (\<Sum>s\<leftarrow>statements demo_nan_doc. length (statement_transactions s)) = 1 \<and>
   extract_transactions (demo_env demo_nan_doc) (demo_fresh, demo_world) =
     (Inl (ValueError ''cannot convert signaling NaN to float''),
      demo_fresh\<lparr>ofx_data := Some demo_nan_doc, parsed := True\<rparr>,
      demo_world\<lparr>parser_calls := 1\<rparr>)"
  by (simp add: demo_parse extract_transactions_def)
     (simp add: demo_nan_doc_def statement_transactions_def Let_def demo_nan_record
        float_error_def)

text \<open>
  Claim C4, as the code has it.  An attribute whose value is null leaves the record as it
  is.  An object with a \<^verbatim>\<open>__dict__\<close> adds the fields \<open>name_uniqueid\<close> and
  \<open>name_uniqueidtype\<close> for those of the two identifier attributes it has, at most these
  two, and nothing under its own name; an object with neither attribute and a value
  without \<^verbatim>\<open>__dict__\<close> add nothing.  A derived field holds the value of the identifier
  attribute as it is.  The fields of a record are exactly the account fields and the fields
  its attributes contribute, so an attribute gives a field only when its value is not null.

  The normalizer raises in one case only: an attribute whose name does not start with an
  underscore and whose value is a \<^verbatim>\<open>Decimal\<close> signalling NaN, for which \<^verbatim>\<open>float()\<close>
  raises \<^verbatim>\<open>ValueError\<close>.  Every other attribute leaves a dictionary, and an object is
  flattened into a record if and only if it has no such attribute.
\<close>

theorem normalizer_fields:
  "flatten_attr d (n, PNone) = Inr d \<and>
   flatten_attr d (n, POther) = Inr d \<and>
   (getattr attrs ''uniqueid'' = None \<and> getattr attrs ''uniqueidtype'' = None \<longrightarrow>
      flatten_attr d (n, PObject attrs) = Inr d) \<and>
   (\<not> startswith_underscore n \<longrightarrow>
      flatten_attr d (n, PObject attrs) =
        Inr (dict_update d
          ((case getattr attrs ''uniqueid'' of
              Some u \<Rightarrow> [(n @ ''_uniqueid'', u)] | None \<Rightarrow> []) @
           (case getattr attrs ''uniqueidtype'' of
              Some u \<Rightarrow> [(n @ ''_uniqueidtype'', u)] | None \<Rightarrow> []))))  \<and>
   (\<exists>fs. flatten_attr d (n, PObject attrs) = Inr (dict_update d fs) \<and> length fs \<le> 2 \<and>
         set (keys fs) \<subseteq> {n @ ''_uniqueid'', n @ ''_uniqueidtype''}) \<and>
   (\<exists>d'. flatten_attr d (n, PObject attrs) = Inr d' \<and> map_of d' n = map_of d n) \<and>
   (flatten_attr d (n, v) = Inl e \<longleftrightarrow>
      \<not> startswith_underscore n \<and> v = PDecimal DSNaN \<and>
      e = ValueError ''cannot convert signaling NaN to float'') \<and>
   ((\<exists>d'. flatten_attr d (n, v) = Inr d') \<longleftrightarrow>
      \<not> (\<not> startswith_underscore n \<and> v = PDecimal DSNaN)) \<and>
   ((\<exists>r. transaction_to_dict obj account_info = Inr r) \<longleftrightarrow> flattens obj) \<and>
   ((\<exists>r. position_to_dict obj account_info = Inr r) \<longleftrightarrow> flattens obj) \<and>
   (transaction_to_dict obj account_info = Inl e \<longleftrightarrow>
      \<not> flattens obj \<and> e = ValueError ''cannot convert signaling NaN to float'') \<and>
   (position_to_dict obj account_info = Inl e \<longleftrightarrow>
      \<not> flattens obj \<and> e = ValueError ''cannot convert signaling NaN to float'') \<and>
   (\<forall>r. transaction_to_dict obj account_info = Inr r \<longrightarrow>
      set (keys r) = set (keys account_info) \<union> {k. \<exists>a \<in> set obj. contributes a k}) \<and>
   (\<forall>r. position_to_dict obj account_info = Inr r \<longrightarrow>
      set (keys r) = set (keys account_info) \<union> {k. \<exists>a \<in> set obj. contributes a k}) \<and>
   \<not> contributes (n, PNone) k"
proof (intro conjI)
  show "flatten_attr d (n, PNone) = Inr d" by (simp add: flatten_attr.simps)
  show "flatten_attr d (n, POther) = Inr d" by (simp add: flatten_attr.simps)
  show "getattr attrs ''uniqueid'' = None \<and> getattr attrs ''uniqueidtype'' = None \<longrightarrow>
      flatten_attr d (n, PObject attrs) = Inr d"
    by (simp add: flatten_attr.simps)
  show "\<not> startswith_underscore n \<longrightarrow>
      flatten_attr d (n, PObject attrs) =
        Inr (dict_update d
          ((case getattr attrs ''uniqueid'' of
              Some u \<Rightarrow> [(n @ ''_uniqueid'', u)] | None \<Rightarrow> []) @
           (case getattr attrs ''uniqueidtype'' of
              Some u \<Rightarrow> [(n @ ''_uniqueidtype'', u)] | None \<Rightarrow> [])))"
    using flatten_attr_object by blast
  show "\<exists>fs. flatten_attr d (n, PObject attrs) = Inr (dict_update d fs) \<and> length fs \<le> 2 \<and>
         set (keys fs) \<subseteq> {n @ ''_uniqueid'', n @ ''_uniqueidtype''}"
    by (rule flatten_attr_object_fields)
  show "\<exists>d'. flatten_attr d (n, PObject attrs) = Inr d' \<and> map_of d' n = map_of d n"
    by (rule flatten_attr_own_key_object)
  show i: "flatten_attr d (n, v) = Inl e \<longleftrightarrow>
      \<not> startswith_underscore n \<and> v = PDecimal DSNaN \<and>
      e = ValueError ''cannot convert signaling NaN to float''"
    by (simp add: flatten_attr_Inl raising_def float_error_def)
  show "(\<exists>d'. flatten_attr d (n, v) = Inr d') \<longleftrightarrow>
      \<not> (\<not> startswith_underscore n \<and> v = PDecimal DSNaN)"
    using flatten_attr_Inl [of d "(n, v)"]
    by (cases "flatten_attr d (n, v)") (auto simp: raising_def)
  show "(\<exists>r. transaction_to_dict obj account_info = Inr r) \<longleftrightarrow> flattens obj"
    by (simp add: transaction_to_dict_def attributes_loop_Inr)
  show "(\<exists>r. position_to_dict obj account_info = Inr r) \<longleftrightarrow> flattens obj"
    by (simp add: position_to_dict_def attributes_loop_Inr)
  show "transaction_to_dict obj account_info = Inl e \<longleftrightarrow>
      \<not> flattens obj \<and> e = ValueError ''cannot convert signaling NaN to float''"
    by (simp add: transaction_to_dict_Inl float_error_def)
  show "position_to_dict obj account_info = Inl e \<longleftrightarrow>
      \<not> flattens obj \<and> e = ValueError ''cannot convert signaling NaN to float''"
    by (simp add: position_to_dict_Inl float_error_def)
  show "\<forall>r. transaction_to_dict obj account_info = Inr r \<longrightarrow>
      set (keys r) = set (keys account_info) \<union> {k. \<exists>a \<in> set obj. contributes a k}"
    by (auto simp: transaction_to_dict_def keys_dict_update keys_simps
        dest!: keys_attributes_loop)
  show "\<forall>r. position_to_dict obj account_info = Inr r \<longrightarrow>
      set (keys r) = set (keys account_info) \<union> {k. \<exists>a \<in> set obj. contributes a k}"
    by (auto simp: position_to_dict_def keys_dict_update keys_simps
        dest!: keys_attributes_loop)
  show "\<not> contributes (n, PNone) k" by (simp add: contributes_def)
qed

theorem normalizer_fields_witness:
  "flatten_attr [(''account_id'', PStr ''123456'')]
     (''payee'', PObject [(''name'', PStr ''ACME'')]) = Inr [(''account_id'', PStr ''123456'')] \<and>
   flatten_attr [(''account_id'', PStr ''123456'')]
     (''secid'', PObject [(''uniqueid'', PStr ''037833100''), (''uniqueidtype'', PStr ''CUSIP'')]) =
     Inr [(''account_id'', PStr ''123456''), (''secid_uniqueid'', PStr ''037833100''),
          (''secid_uniqueidtype'', PStr ''CUSIP'')] \<and>
   flattens demo_pos \<and>
   (\<exists>r. position_to_dict demo_pos (position_account_info demo_account) = Inr r \<and>
         set (keys r) =
           {''account_id'', ''broker_id'', ''secid_uniqueid'', ''secid_uniqueidtype'', ''units''}) \<and>
   (\<exists>d'. flatten_attr [] (''trnamt'', PDecimal (Decimal (- 2317) (- 2))) = Inr d') \<and>
   \<not> flattens demo_nan_trx \<and>
   transaction_to_dict demo_nan_trx (transaction_account_info demo_account) =
     Inl (ValueError ''cannot convert signaling NaN to float'')"
proof -
  let ?d = "[(''account_id'', PStr ''123456'')]"
  have c: "{k. \<exists>a \<in> set demo_pos. contributes a k} =
           {''secid_uniqueid'', ''secid_uniqueidtype'', ''units''}"
    by (auto simp: demo_pos_def contributes_def getattr_def)
  have 1: "flatten_attr ?d (''payee'', PObject [(''name'', PStr ''ACME'')]) = Inr ?d"
    using normalizer_fields [where d = ?d and n = "''payee''" and attrs = "[(''name'', PStr ''ACME'')]"]
    by (simp add: getattr_def)
  have 2: "flatten_attr ?d
     (''secid'', PObject [(''uniqueid'', PStr ''037833100''), (''uniqueidtype'', PStr ''CUSIP'')]) =
     Inr [(''account_id'', PStr ''123456''), (''secid_uniqueid'', PStr ''037833100''),
          (''secid_uniqueidtype'', PStr ''CUSIP'')]"
    using normalizer_fields [where d = ?d and n = "''secid''" and
        attrs = "[(''uniqueid'', PStr ''037833100''), (''uniqueidtype'', PStr ''CUSIP'')]"]
    by (simp add: getattr_def dict_update_def setitem_def)
  note pos = normalizer_fields [where d = "[]" and n = "''trnamt''" and attrs = "[]" and
      v = "PDecimal (Decimal (- 2317) (- 2))" and
      e = "ValueError ''cannot convert signaling NaN to float''" and obj = demo_pos and
      account_info = "position_account_info demo_account" and k = "[]"]
  note pos_inr = pos [THEN conjunct2, THEN conjunct2, THEN conjunct2, THEN conjunct2, THEN conjunct2, THEN conjunct2, THEN conjunct2, THEN conjunct2, THEN conjunct2, THEN conjunct1]
  note pos_keys = pos [THEN conjunct2, THEN conjunct2, THEN conjunct2, THEN conjunct2, THEN conjunct2, THEN conjunct2, THEN conjunct2, THEN conjunct2, THEN conjunct2, THEN conjunct2, THEN conjunct2, THEN conjunct2, THEN conjunct2, THEN conjunct1]
  note dec_inr = pos [THEN conjunct2, THEN conjunct2, THEN conjunct2, THEN conjunct2, THEN conjunct2, THEN conjunct2, THEN conjunct2, THEN conjunct1]
  have fl: "flattens demo_pos" by (simp add: flattens_def raising_def demo_pos_def)
  with pos_inr obtain r where r: "position_to_dict demo_pos (position_account_info demo_account) = Inr r"
    by blast
  with pos_keys have "set (keys r) = set (keys (position_account_info demo_account)) \<union>
           {k. \<exists>a \<in> set demo_pos. contributes a k}"
    by blast
  moreover have "set (keys (position_account_info demo_account)) = {''account_id'', ''broker_id''}"
    by (simp add: position_account_info_def keys_def)
  ultimately have 3: "set (keys r) =
      {''account_id'', ''broker_id'', ''secid_uniqueid'', ''secid_uniqueidtype'', ''units''}"
    unfolding c by auto
  have 4: "\<exists>d'. flatten_attr [] (''trnamt'', PDecimal (Decimal (- 2317) (- 2))) = Inr d'"
    using dec_inr by simp
  have nf: "\<not> flattens demo_nan_trx" by (simp add: flattens_def raising_def demo_nan_trx_def)
  note nan = normalizer_fields [where d = "[]" and n = "''trnamt''" and attrs = "[]" and
      v = "PDecimal DSNaN" and
      e = "ValueError ''cannot convert signaling NaN to float''" and obj = demo_nan_trx and
      account_info = "transaction_account_info demo_account" and k = "[]"]
  have 5: "transaction_to_dict demo_nan_trx (transaction_account_info demo_account) =
     Inl (ValueError ''cannot convert signaling NaN to float'')"
    using nan [THEN conjunct2, THEN conjunct2, THEN conjunct2, THEN conjunct2, THEN conjunct2, THEN conjunct2, THEN conjunct2, THEN conjunct2, THEN conjunct2, THEN conjunct2, THEN conjunct1] nf by simp
  from 1 2 fl r 3 4 nf 5 show ?thesis by blast
qed

text \<open>
  Claim C4 as the specification states it (normalization never raises an error) fails for
  an amount that is a signalling NaN: \<^verbatim>\<open>float()\<close> raises \<^verbatim>\<open>ValueError\<close>, nothing catches
  it, and neither a transaction nor a position with such an attribute is flattened.
\<close>

theorem normalizer_raises_counterexample:
  "flatten_attr [(''account_id'', PStr ''123456'')] (''trnamt'', PDecimal DSNaN) =
     Inl (ValueError ''cannot convert signaling NaN to float'') \<and>
   transaction_to_dict [(''fitid'', PStr ''1003''), (''trnamt'', PDecimal DSNaN)]
       (transaction_account_info demo_account) =
     Inl (ValueError ''cannot convert signaling NaN to float'') \<and>
   position_to_dict [(''fitid'', PStr ''1003''), (''trnamt'', PDecimal DSNaN)]
       (position_account_info demo_account) =
     Inl (ValueError ''cannot convert signaling NaN to float'')"
  by (simp add: transaction_to_dict_def position_to_dict_def dict_update_def
      flatten_attr.simps setitem_def float_of_decimal_def)

section \<open>Conversions: claims C9, C10, C3, C8 and C5\<close>

lemma ensure_parsed_cases:
  "(\<exists>doc c' w'. ensure_parsed E cw = (Inr doc, c', w') \<and> parsed c' \<and> ofx_data c' = Some doc \<and>
        input_file c' = input_file (fst cw) \<and> files w' = files (snd cw)) \<or>
   (\<exists>m cw'. ensure_parsed E cw = (Inl (ValueError (''Failed to parse OFX file: '' @ m)), cw') \<and>
        files (snd cw') = files (snd cw)) \<or>
   (\<exists>m cw'. ensure_parsed E cw = (Inl (AttributeError m), cw') \<and> files (snd cw') = files (snd cw))"
  by (cases cw)
     (auto simp: ensure_parsed_def parse_def Let_def split: option.splits sum.splits if_splits)

lemma ensure_parsed_again:
  "parsed c \<Longrightarrow> ofx_data c = Some doc \<Longrightarrow> ensure_parsed E (c, w) = (Inr doc, c, w)"
  by (simp add: ensure_parsed_def)

lemma ensure_parsed_Inr:
  assumes "ensure_parsed E cw = (Inr doc, c', w')"
  shows "parsed c' \<and> ofx_data c' = Some doc \<and> input_file c' = input_file (fst cw) \<and>
         files w' = files (snd cw)"
  using ensure_parsed_cases [of E cw] assms by auto

lemma to_csv_parsed:
  assumes "ensure_parsed E cw = (Inr doc, c', w')"
  shows "to_csv E output cw =
     (let output_file = output_path E output (fst cw) ''.csv''
      in case transactions_loop (statements doc) [] of
           Inl e \<Rightarrow> (Inl e, c', w')
         | Inr trxs \<Rightarrow>
             if trxs = [] then (Inl no_transactions, c', w')
             else
               (let w2 = write_file output_file (CsvFile (csv_rows E trxs)) w'
                in case positions_loop (statements doc) [] of
                     Inl e \<Rightarrow> (Inl e, c', w2)
                   | Inr poss \<Rightarrow>
                       if poss \<noteq> []
                       then (Inr output_file, c',
                             write_file (with_suffix E output_file ''.positions.csv'')
                               (CsvFile (csv_rows E poss)) w2)
                       else (Inr output_file, c', w2)))"
proof -
  have p: "parsed c'" "ofx_data c' = Some doc"
    using ensure_parsed_Inr [OF assms] by simp_all
  show ?thesis
    using assms
    by (simp add: to_csv_def extract_transactions_def extract_positions_def
        ensure_parsed_again [OF p] no_transactions_def output_path_def Let_def
        split: sum.splits)
qed

lemma to_json_parsed:
  assumes "ensure_parsed E cw = (Inr doc, c', w')"
  shows "to_json E output indent cw =
     (let output_file = output_path E output (fst cw) ''.json''
      in case transactions_loop (statements doc) [] of
           Inl e \<Rightarrow> (Inl e, c', w')
         | Inr trxs \<Rightarrow>
             if trxs = [] then (Inl no_transactions, c', w')
             else
               (case positions_loop (statements doc) [] of
                  Inl e \<Rightarrow> (Inl e, c', w')
                | Inr poss \<Rightarrow>
                    (Inr output_file, c',
                     write_file output_file
                       (JsonFile (if indent > 0 then Some indent else None)
                          ((''transactions'', trxs) #
                           (if poss \<noteq> [] then [(''positions'', poss)] else [])))
                       w')))"
proof -
  have p: "parsed c'" "ofx_data c' = Some doc"
    using ensure_parsed_Inr [OF assms] by simp_all
  show ?thesis
    using assms
    by (simp add: to_json_def extract_transactions_def extract_positions_def
        ensure_parsed_again [OF p] no_transactions_def output_path_def Let_def
        split: sum.splits)
qed

lemma to_csv_failed:
  assumes "ensure_parsed E cw = (Inl e, cw')"
  shows "to_csv E output cw = (Inl e, cw')"
  using assms by (simp add: to_csv_def extract_transactions_def Let_def)

lemma to_json_failed:
  assumes "ensure_parsed E cw = (Inl e, cw')"
  shows "to_json E output indent cw = (Inl e, cw')"
  using assms by (simp add: to_json_def extract_transactions_def Let_def)

lemma to_csv_result:
  "(\<exists>p cw'. to_csv E output cw = (Inr p, cw')) \<or>
   (\<exists>cw'. to_csv E output cw = (Inl no_transactions, cw')) \<or>
   (\<exists>cw'. to_csv E output cw = (Inl float_error, cw')) \<or>
   (\<exists>m cw'. to_csv E output cw = (Inl (ValueError (''Failed to parse OFX file: '' @ m)), cw')) \<or>
   (\<exists>m cw'. to_csv E output cw = (Inl (AttributeError m), cw'))"
  using ensure_parsed_cases [of E cw]
proof (elim disjE exE conjE)
  fix doc c' w'
  assume "ensure_parsed E cw = (Inr doc, c', w')"
  from to_csv_parsed [OF this, of "output"] show ?thesis
    by (auto simp: Let_def split: if_splits sum.splits
        dest: transactions_loop_Inl positions_loop_Inl)
next
  fix m cw'
  assume "ensure_parsed E cw = (Inl (ValueError (''Failed to parse OFX file: '' @ m)), cw')"
  from to_csv_failed [OF this, of "output"] show ?thesis by blast
next
  fix m cw'
  assume "ensure_parsed E cw = (Inl (AttributeError m), cw')"
  from to_csv_failed [OF this, of "output"] show ?thesis by blast
qed

lemma to_json_result:
  "(\<exists>p cw'. to_json E output indent cw = (Inr p, cw')) \<or>
   (\<exists>cw'. to_json E output indent cw = (Inl no_transactions, cw')) \<or>
   (\<exists>cw'. to_json E output indent cw = (Inl float_error, cw')) \<or>
   (\<exists>m cw'. to_json E output indent cw =
              (Inl (ValueError (''Failed to parse OFX file: '' @ m)), cw')) \<or>
   (\<exists>m cw'. to_json E output indent cw = (Inl (AttributeError m), cw'))"
  using ensure_parsed_cases [of E cw]
proof (elim disjE exE conjE)
  fix doc c' w'
  assume "ensure_parsed E cw = (Inr doc, c', w')"
  from to_json_parsed [OF this, of "output" indent] show ?thesis
    by (auto simp: Let_def split: if_splits sum.splits
        dest: transactions_loop_Inl positions_loop_Inl)
next
  fix m cw'
  assume "ensure_parsed E cw = (Inl (ValueError (''Failed to parse OFX file: '' @ m)), cw')"
  from to_json_failed [OF this, of "output" indent] show ?thesis by blast
next
  fix m cw'
  assume "ensure_parsed E cw = (Inl (AttributeError m), cw')"
  from to_json_failed [OF this, of "output" indent] show ?thesis by blast
qed

lemma to_csv_not_unsupported: "fst (to_csv E output cw) \<noteq> Inl (unsupported_format fmt)"
  using to_csv_result [of E "output" cw]
  by (auto simp: unsupported_format_def no_transactions_def float_error_def)

lemma to_json_not_unsupported: "fst (to_json E output indent cw) \<noteq> Inl (unsupported_format fmt)"
  using to_json_result [of E "output" indent cw]
  by (auto simp: unsupported_format_def no_transactions_def float_error_def)

text \<open>
  Claim C9.  When the input path does not exist, the constructor raises
  \<^verbatim>\<open>FileNotFoundError\<close>; \<^verbatim>\<open>convert_qfx\<close> builds the converter first, so it fails with
  the same error whatever the format, and the world it leaves is the world it found: no
  file is written and the parser has not been run.
\<close>

theorem missing_input_not_found:
  assumes "files w path = None"
  shows "QFXConverter_init w path = Inl (FileNotFoundError (''Input file not found: '' @ path)) \<and>
         convert_qfx E path output_format output w =
           (Inl (FileNotFoundError (''Input file not found: '' @ path)), w) \<and>
         parser_calls (snd (convert_qfx E path output_format output w)) = parser_calls w"
  using assms by (simp add: QFXConverter_init_def convert_qfx_def)

theorem missing_input_not_found_witness:
  "files demo_world ''missing.ofx'' = None \<and>
   QFXConverter_init demo_world ''missing.ofx'' =
     Inl (FileNotFoundError ''Input file not found: missing.ofx'') \<and>
   convert_qfx (demo_env demo_doc) ''missing.ofx'' ''csv'' None demo_world =
     (Inl (FileNotFoundError ''Input file not found: missing.ofx''), demo_world) \<and>
   parser_calls (snd (convert_qfx (demo_env demo_doc) ''missing.ofx'' ''csv'' None demo_world)) = 0"
proof -
  have h: "files demo_world ''missing.ofx'' = None" by (simp add: demo_world_def)
  show ?thesis
    using h missing_input_not_found [OF h, of "demo_env demo_doc" "''csv''" None]
    by (simp add: demo_world_def)
qed

text \<open>
  Claim C10, as the code has it.  \<^verbatim>\<open>convert_qfx\<close> builds the converter before it looks
  at the format.  When the input file exists, the format is compared in lower case:
  \<^verbatim>\<open>csv\<close> in any case runs \<^verbatim>\<open>to_csv\<close>, \<^verbatim>\<open>json\<close> in any case runs \<^verbatim>\<open>to_json\<close> with
  indent 2, and the unsupported-format error is raised if and only if the lowercased
  format is neither of the two.
\<close>

theorem format_selected_by_lowercase:
  assumes "files w input \<noteq> None"
  shows "(fst (convert_qfx E input output_format output w) = Inl (unsupported_format output_format)
            \<longleftrightarrow> lower output_format \<noteq> ''csv'' \<and> lower output_format \<noteq> ''json'') \<and>
         (lower output_format = ''csv'' \<longrightarrow>
            convert_qfx E input output_format output w =
              (case to_csv E output
                      (\<lparr>input_file = input, ofx_data = None, parsed = False\<rparr>, w)
               of (r, c', w') \<Rightarrow> (r, w'))) \<and>
         (lower output_format = ''json'' \<longrightarrow>
            convert_qfx E input output_format output w =
              (case to_json E output 2
                      (\<lparr>input_file = input, ofx_data = None, parsed = False\<rparr>, w)
               of (r, c', w') \<Rightarrow> (r, w')))"
proof -
  let ?c = "\<lparr>input_file = input, ofx_data = None, parsed = False\<rparr>"
  have init: "QFXConverter_init w input = Inr ?c"
    using assms by (simp add: QFXConverter_init_def)
  have csv: "fst (case to_csv E output (?c, w) of (r, c', w') \<Rightarrow> (r, w'))
               \<noteq> Inl (unsupported_format output_format)"
    using to_csv_not_unsupported [of E "output" "(?c, w)" output_format]
    by (simp add: split_beta)
  have json: "fst (case to_json E output 2 (?c, w) of (r, c', w') \<Rightarrow> (r, w'))
               \<noteq> Inl (unsupported_format output_format)"
    using to_json_not_unsupported [of E "output" 2 "(?c, w)" output_format]
    by (simp add: split_beta)
  show ?thesis
    using csv json by (simp add: convert_qfx_def init)
qed

theorem format_selected_by_lowercase_witness:
  "files demo_world ''stmt.ofx'' \<noteq> None \<and>
   lower ''CSV'' = ''csv'' \<and> lower ''Csv'' = ''csv'' \<and> lower ''JSON'' = ''json'' \<and>
   convert_qfx (demo_env demo_doc) ''stmt.ofx'' ''Csv'' None demo_world =
     (case to_csv (demo_env demo_doc) None
             (\<lparr>input_file = ''stmt.ofx'', ofx_data = None, parsed = False\<rparr>, demo_world)
      of (r, c', w') \<Rightarrow> (r, w')) \<and>
   convert_qfx (demo_env demo_doc) ''stmt.ofx'' ''JSON'' None demo_world =
     (case to_json (demo_env demo_doc) None 2
             (\<lparr>input_file = ''stmt.ofx'', ofx_data = None, parsed = False\<rparr>, demo_world)
      of (r, c', w') \<Rightarrow> (r, w')) \<and>
   fst (convert_qfx (demo_env demo_doc) ''stmt.ofx'' ''xml'' None demo_world) =
     Inl (unsupported_format ''xml'')"
proof -
  have h: "files demo_world ''stmt.ofx'' \<noteq> None" by (simp add: demo_world_def)
  have l: "lower ''CSV'' = ''csv''" "lower ''Csv'' = ''csv''" "lower ''JSON'' = ''json''"
    "lower ''xml'' = ''xml''"
    by code_simp+
  show ?thesis
    using h l
      format_selected_by_lowercase [OF h, of "demo_env demo_doc" "''Csv''" None]
      format_selected_by_lowercase [OF h, of "demo_env demo_doc" "''JSON''" None]
      format_selected_by_lowercase [OF h, of "demo_env demo_doc" "''xml''" None]
    by simp
qed

text \<open>
  Claim C10 as stated (the unsupported-format error if and only if the lowercased format
  is neither \<^verbatim>\<open>csv\<close> nor \<^verbatim>\<open>json\<close>) fails for an input file that does not exist: the
  format \<^verbatim>\<open>xml\<close> then gives the not-found error of the constructor.
\<close>

theorem unsupported_format_counterexample:
  "lower ''xml'' \<noteq> ''csv'' \<and> lower ''xml'' \<noteq> ''json'' \<and>
   convert_qfx (demo_env demo_doc) ''missing.ofx'' ''xml'' None demo_world =
     (Inl (FileNotFoundError ''Input file not found: missing.ofx''), demo_world) \<and>
   fst (convert_qfx (demo_env demo_doc) ''missing.ofx'' ''xml'' None demo_world)
     \<noteq> Inl (unsupported_format ''xml'')"
proof -
  have "lower ''xml'' = ''xml''" by code_simp
  then show ?thesis
    by (simp add: convert_qfx_def QFXConverter_init_def demo_world_def unsupported_format_def)
qed

lemma extract_transactions_Inr:
  assumes "extract_transactions E cw = (Inr trxs, cw')"
  shows "\<exists>doc. ensure_parsed E cw = (Inr doc, cw') \<and>
               transactions_loop (statements doc) [] = Inr trxs"
  using assms
  by (auto simp: extract_transactions_def split: prod.splits sum.splits)

lemma no_transactions_iff:
  assumes "ensure_parsed E cw = (Inr doc, c1, w1)"
  shows "fst (to_csv E out cw) = Inl no_transactions
           \<longleftrightarrow> (\<forall>s \<in> set (statements doc). statement_transactions s = [])"
    and "fst (to_json E out indent cw) = Inl no_transactions
           \<longleftrightarrow> (\<forall>s \<in> set (statements doc). statement_transactions s = [])"
proof -
  have ne: "float_error \<noteq> no_transactions" by (simp add: float_error_def no_transactions_def)
  show "fst (to_csv E out cw) = Inl no_transactions
           \<longleftrightarrow> (\<forall>s \<in> set (statements doc). statement_transactions s = [])"
  proof (cases "transactions_loop (statements doc) []")
    case (Inl e)
    with transactions_loop_Inl [OF Inl] transactions_loop_empty [of "statements doc"] ne
    show ?thesis
      by (simp add: to_csv_parsed [OF assms] Let_def)
  next
    case (Inr trxs)
    with transactions_loop_empty [of "statements doc"] ne show ?thesis
      by (auto simp: to_csv_parsed [OF assms] Let_def split: sum.splits
          dest: positions_loop_Inl)
  qed
  show "fst (to_json E out indent cw) = Inl no_transactions
           \<longleftrightarrow> (\<forall>s \<in> set (statements doc). statement_transactions s = [])"
  proof (cases "transactions_loop (statements doc) []")
    case (Inl e)
    with transactions_loop_Inl [OF Inl] transactions_loop_empty [of "statements doc"] ne
    show ?thesis
      by (simp add: to_json_parsed [OF assms] Let_def)
  next
    case (Inr trxs)
    with transactions_loop_empty [of "statements doc"] ne show ?thesis
      by (auto simp: to_json_parsed [OF assms] Let_def split: sum.splits
          dest: positions_loop_Inl)
  qed
qed

text \<open>
  Claim C3.  When the aggregation of a parsed document gives no transaction record,
  \<^verbatim>\<open>to_csv\<close> and \<^verbatim>\<open>to_json\<close> fail with \<^verbatim>\<open>ValueError("No transactions found in OFX
  file")\<close> and the files are those found before the call: nothing has been opened or
  written.  The test is made once on the aggregated list: for a parsed document the error
  is raised if and only if every statement is without transactions, so a statement
  without transactions next to one that has some raises nothing.
\<close>

theorem no_transactions_error:
  "(extract_transactions E cw = (Inr [], cw') \<longrightarrow>
      to_csv E out cw = (Inl (ValueError ''No transactions found in OFX file''), cw') \<and>
      to_json E out indent cw = (Inl (ValueError ''No transactions found in OFX file''), cw') \<and>
      files (snd cw') = files (snd cw)) \<and>
   (ensure_parsed E cw = (Inr doc, cw1) \<longrightarrow>
      (fst (to_csv E out cw) = Inl (ValueError ''No transactions found in OFX file'')
         \<longleftrightarrow> (\<forall>s \<in> set (statements doc). statement_transactions s = [])) \<and>
      (fst (to_json E out indent cw) = Inl (ValueError ''No transactions found in OFX file'')
         \<longleftrightarrow> (\<forall>s \<in> set (statements doc). statement_transactions s = [])))"
proof (intro conjI impI)
  assume a: "extract_transactions E cw = (Inr [], cw')"
  obtain c' w' where cw': "cw' = (c', w')" by (cases cw')
  show "to_csv E out cw = (Inl (ValueError ''No transactions found in OFX file''), cw')"
    using a by (simp add: to_csv_def cw' Let_def)
  show "to_json E out indent cw = (Inl (ValueError ''No transactions found in OFX file''), cw')"
    using a by (simp add: to_json_def Let_def)
  from extract_transactions_Inr [OF a] obtain doc' where "ensure_parsed E cw = (Inr doc', c', w')"
    by (auto simp: cw')
  from ensure_parsed_Inr [OF this] show "files (snd cw') = files (snd cw)"
    by (simp add: cw')
next
  assume p: "ensure_parsed E cw = (Inr doc, cw1)"
  obtain c1 w1 where cw1: "cw1 = (c1, w1)" by (cases cw1)
  show "fst (to_csv E out cw) = Inl (ValueError ''No transactions found in OFX file'')
         \<longleftrightarrow> (\<forall>s \<in> set (statements doc). statement_transactions s = [])"
    using no_transactions_iff(1) [OF p [unfolded cw1], of out]
    by (simp add: no_transactions_def)
  show "fst (to_json E out indent cw) = Inl (ValueError ''No transactions found in OFX file'')
         \<longleftrightarrow> (\<forall>s \<in> set (statements doc). statement_transactions s = [])"
    using no_transactions_iff(2) [OF p [unfolded cw1], of out indent]
    by (simp add: no_transactions_def)
qed

theorem no_transactions_error_witness:
  "extract_transactions (demo_env demo_empty_doc) (demo_fresh, demo_world) =
     (Inr [], demo_fresh\<lparr>ofx_data := Some demo_empty_doc, parsed := True\<rparr>,
      demo_world\<lparr>parser_calls := 1\<rparr>) \<and>
   to_csv (demo_env demo_empty_doc) None (demo_fresh, demo_world) =
     (Inl (ValueError ''No transactions found in OFX file''),
      demo_fresh\<lparr>ofx_data := Some demo_empty_doc, parsed := True\<rparr>,
      demo_world\<lparr>parser_calls := 1\<rparr>) \<and>
   to_json (demo_env demo_empty_doc) None 2 (demo_fresh, demo_world) =
     (Inl (ValueError ''No transactions found in OFX file''),
      demo_fresh\<lparr>ofx_data := Some demo_empty_doc, parsed := True\<rparr>,
      demo_world\<lparr>parser_calls := 1\<rparr>) \<and>
   files (demo_world\<lparr>parser_calls := 1\<rparr>) = files demo_world \<and>
   fst (to_csv (demo_env demo_doc) None (demo_fresh, demo_world))
     \<noteq> Inl (ValueError ''No transactions found in OFX file'') \<and>
   fst (to_json (demo_env demo_doc) None 2 (demo_fresh, demo_world))
     \<noteq> Inl (ValueError ''No transactions found in OFX file'')"
proof -
  let ?cw' = "(demo_fresh\<lparr>ofx_data := Some demo_empty_doc, parsed := True\<rparr>,
               demo_world\<lparr>parser_calls := 1\<rparr>)"
  have e: "extract_transactions (demo_env demo_empty_doc) (demo_fresh, demo_world) = (Inr [], ?cw')"
    by (simp add: extract_transactions_def demo_parse demo_empty_doc_def)
  have n: "\<not> (\<forall>s \<in> set (statements demo_doc). statement_transactions s = [])"
    by (simp add: demo_doc_def statement_transactions_def)
  show ?thesis
    using e n
      no_transactions_error [of "demo_env demo_empty_doc" "(demo_fresh, demo_world)" ?cw' None 2]
      no_transactions_error [of "demo_env demo_doc" "(demo_fresh, demo_world)" _ None 2 demo_doc,
        simplified demo_parse]
    by simp
qed

text \<open>
  Claim C8.  After a successful \<^verbatim>\<open>to_json\<close> the file at the returned path holds a
  document whose key \<^verbatim>\<open>transactions\<close> is bound to the whole list of transaction records
  (which is not empty), and whose key \<^verbatim>\<open>positions\<close> is bound to the position records if
  there is at least one and is absent otherwise.
\<close>

theorem json_document_keys:
  assumes "to_json E out indent cw = (Inr path, cw')"
  shows "\<exists>trxs poss cw1 ind data.
           extract_transactions E cw = (Inr trxs, cw1) \<and>
           extract_positions E cw1 = (Inr poss, cw1) \<and>
           trxs \<noteq> [] \<and>
           files (snd cw') path = Some (JsonFile ind data) \<and>
           map_of data ''transactions'' = Some trxs \<and>
           map_of data ''positions'' = (if poss = [] then None else Some poss) \<and>
           (''positions'' \<in> set (map fst data) \<longleftrightarrow> poss \<noteq> []) \<and>
           ''transactions'' \<in> set (map fst data)"
proof -
  from ensure_parsed_cases [of E cw] assms to_json_failed [of E cw]
  obtain doc c1 w1 where p: "ensure_parsed E cw = (Inr doc, c1, w1)"
    and q: "parsed c1" "ofx_data c1 = Some doc"
    by fastforce
  from to_json_parsed [OF p, of out indent] assms
  obtain trxs poss where t: "transactions_loop (statements doc) [] = Inr trxs"
    and ps: "positions_loop (statements doc) [] = Inr poss"
    and 3: "trxs \<noteq> []"
    and 5: "cw' = (c1, write_file path
                 (JsonFile (if indent > 0 then Some indent else None)
                    ((''transactions'', trxs) # (if poss \<noteq> [] then [(''positions'', poss)] else [])))
                 w1)"
    by (auto simp: Let_def split: if_splits sum.splits)
  let ?data = "(''transactions'', trxs) # (if poss \<noteq> [] then [(''positions'', poss)] else [])"
  have 1: "extract_transactions E cw = (Inr trxs, c1, w1)"
    using p t by (simp add: extract_transactions_def)
  have 2: "extract_positions E (c1, w1) = (Inr poss, c1, w1)"
    using ps by (simp add: extract_positions_def ensure_parsed_again [OF q])
  have 6: "files (snd cw') path = Some (JsonFile (if indent > 0 then Some indent else None) ?data)"
    by (simp add: 5 write_file_def)
  show ?thesis
    using 1 2 3 6 by force
qed

theorem json_document_keys_witness:
  "fst (to_json (demo_env demo_doc) (Some ''out.json'') 2 (demo_fresh, demo_world)) =
     Inr ''out.json'' \<and>
   (\<exists>trxs poss ind data.
      files (snd (snd (to_json (demo_env demo_doc) (Some ''out.json'') 2 (demo_fresh, demo_world))))
        ''out.json'' = Some (JsonFile ind data) \<and>
      map_of data ''transactions'' = Some trxs \<and> length trxs = 2 \<and>
      map_of data ''positions'' = Some poss \<and> length poss = 1)"
proof -
  let ?E = "demo_env demo_doc"
  let ?r = "to_json ?E (Some ''out.json'') 2 (demo_fresh, demo_world)"
  have j: "?r = (Inr ''out.json'', snd ?r)"
    using to_json_parsed [OF demo_parse, of demo_doc "Some ''out.json''" 2]
    by (simp add: demo_transactions demo_positions Let_def output_path_def)
  from json_document_keys [OF j] obtain trxs poss cw1 ind data where
    a: "extract_transactions ?E (demo_fresh, demo_world) = (Inr trxs, cw1)"
    and b: "extract_positions ?E cw1 = (Inr poss, cw1)"
    and c: "files (snd (snd ?r)) ''out.json'' = Some (JsonFile ind data)"
    and d: "map_of data ''transactions'' = Some trxs"
    and e: "map_of data ''positions'' = (if poss = [] then None else Some poss)"
    by blast
  from a have cw1: "cw1 = (demo_fresh\<lparr>ofx_data := Some demo_doc, parsed := True\<rparr>,
                           demo_world\<lparr>parser_calls := 1\<rparr>)"
    and lt: "length trxs = 2"
    by (auto simp: extract_transactions_def demo_parse demo_transactions)
  from b have lp: "length poss = 1"
    by (auto simp: cw1 extract_positions_def ensure_parsed_def demo_positions)
  from e lp have e': "map_of data ''positions'' = Some poss" by auto
  from j have "fst ?r = Inr ''out.json''" by (metis fst_conv)
  with c d e' lt lp show ?thesis by blast
qed



















section \<open>Decimal amounts: claim C6\<close>

lemma round_half_even_error: "\<bar>of_int (round_half_even x) - x\<bar> \<le> 1 / 2"
  unfolding round_half_even_def Let_def
  by (auto simp: abs_if not_less) linarith+

lemma round_half_even_of_int: "round_half_even (of_int n) = n"
  by (simp add: round_half_even_def)

lemma round_half_even_near:
  assumes "\<bar>x - of_int n\<bar> < 1 / 2"
  shows "round_half_even x = n"
proof -
  have "\<bar>of_int (round_half_even x) - x\<bar> \<le> 1 / 2" by (rule round_half_even_error)
  with assms have "\<bar>(of_int (round_half_even x) :: rat) - of_int n\<bar> < 1" by linarith
  then have "\<bar>round_half_even x - n\<bar> < 1"
    by (metis of_int_diff of_int_abs of_int_less_1_iff)
  then show ?thesis by linarith
qed

lemma round_half_even_bound:
  assumes "\<bar>x\<bar> \<le> of_int N"
  shows "\<bar>round_half_even x\<bar> \<le> N"
proof -
  have "\<bar>of_int (round_half_even x) - x\<bar> \<le> 1 / 2" by (rule round_half_even_error)
  with assms have "\<bar>of_int (round_half_even x) :: rat\<bar> < of_int N + 1" by linarith
  then have "(of_int \<bar>round_half_even x\<bar> :: rat) < of_int (N + 1)" by simp
  then have "\<bar>round_half_even x\<bar> < N + 1" by (simp only: of_int_less_iff)
  then show ?thesis by simp
qed

lemma bitlen_powi:
  assumes "0 < p"
  shows "(2::rat) powi (bitlen p - 1) \<le> of_int p" "of_int p < (2::rat) powi (bitlen p)"
proof -
  from bitlen_bounds [OF assms] have a: "2 ^ nat (bitlen p - 1) \<le> p" and b: "p < 2 ^ nat (bitlen p)"
    by simp_all
  have ge: "1 \<le> bitlen p" using assms bitlen_eq_zero_iff [of p] bitlen_nonneg [of p] by linarith
  from a have "(of_int (2 ^ nat (bitlen p - 1)) :: rat) \<le> of_int p" by (simp only: of_int_le_iff)
  then show "(2::rat) powi (bitlen p - 1) \<le> of_int p"
    using ge by (simp add: power_int_def)
  from b have "(of_int p :: rat) < of_int (2 ^ nat (bitlen p))" by (simp only: of_int_less_iff)
  then show "of_int p < (2::rat) powi (bitlen p)"
    using ge by (simp add: power_int_def)
qed

text \<open>The exponent is the right one: \<open>2 ^ e \<le> x < 2 ^ (e + 1)\<close>, and only one \<open>e\<close> does that.\<close>

lemma binary_exponent_bounds:
  assumes "0 < x"
  shows "2 powi (binary_exponent x) \<le> x" "x < 2 powi (binary_exponent x + 1)"
proof -
  obtain p q where pq: "quotient_of x = (p, q)" by (cases "quotient_of x")
  have q: "0 < q" by (rule quotient_of_denom_pos [OF pq])
  have x: "x = of_int p / of_int q" by (rule quotient_of_div [OF pq])
  have p: "0 < p" using assms q x by (simp add: zero_less_divide_iff)
  define e0 where "e0 = bitlen p - bitlen q"
  note bp = bitlen_powi [OF p] and bq = bitlen_powi [OF q]
  have qpos: "(0::rat) < of_int q" using q by simp
  have up: "x < 2 powi (e0 + 1)"
  proof -
    have "x < 2 powi (bitlen p) / of_int q"
      unfolding x using bp(2) qpos by (simp add: divide_strict_right_mono)
    also have "\<dots> \<le> 2 powi (bitlen p) / 2 powi (bitlen q - 1)"
      using bq(1) by (intro divide_left_mono) (auto intro: mult_pos_pos qpos)
    also have "\<dots> = 2 powi (e0 + 1)"
      by (simp add: e0_def power_int_diff power_int_add)
    finally show ?thesis .
  qed
  have lo: "2 powi (e0 - 1) < x"
  proof -
    have "(2::rat) powi (e0 - 1) = 2 powi (bitlen p - 1) / 2 powi (bitlen q)"
      by (simp add: e0_def power_int_diff power_int_add)
    also have "\<dots> < 2 powi (bitlen p - 1) / of_int q"
      using bq(2) qpos by (intro divide_strict_left_mono) (auto intro: mult_pos_pos)
    also have "\<dots> \<le> x"
      unfolding x using bp(1) qpos by (simp add: divide_right_mono)
    finally show ?thesis .
  qed
  have be: "binary_exponent x = (if 2 powi e0 \<le> x then e0 else e0 - 1)"
    by (simp add: binary_exponent_def pq e0_def Let_def)
  show "2 powi (binary_exponent x) \<le> x"
    using lo by (simp add: be)
  show "x < 2 powi (binary_exponent x + 1)"
    using up by (simp add: be not_le)
qed

lemma powi_less_exp:
  assumes "(2::rat) powi a < 2 powi b"
  shows "a < b"
  using assms by (metis not_less power_int_increasing one_le_numeral)

lemma binary_exponent_unique:
  assumes "2 powi e \<le> x" and "x < 2 powi (e + 1)"
  shows "binary_exponent x = e"
proof -
  have pos: "0 < x" using assms(1) zero_less_power_int [of "2::rat" e] by linarith
  note b = binary_exponent_bounds [OF pos]
  have "(2::rat) powi e < 2 powi (binary_exponent x + 1)" using assms(1) b(2) by linarith
  then have 1: "e < binary_exponent x + 1" by (rule powi_less_exp)
  have "(2::rat) powi (binary_exponent x) < 2 powi (e + 1)" using assms(2) b(1) by linarith
  then have 2: "binary_exponent x < e + 1" by (rule powi_less_exp)
  from 1 2 show ?thesis by linarith
qed

text \<open>
  A value of the normal range below \<open>2 ^ b\<close> becomes a finite binary64 value: an integer
  of at most 53 bits times a power of two, at most half a unit in the last place away.
\<close>

lemma float_of_rat_error:
  assumes lo: "2 powi (- 1022) \<le> \<bar>x\<bar>" and hi: "\<bar>x\<bar> < 2 powi b" and b: "b \<le> 1023"
  shows "\<exists>f. float_of_rat x = Finite f \<and> \<bar>f - x\<bar> \<le> 2 powi (b - 54) \<and>
             (\<exists>m q. f = of_int m * 2 powi q \<and> \<bar>m\<bar> \<le> 2 ^ 53 \<and> - 1074 \<le> q)"
proof -
  define e where "e = binary_exponent \<bar>x\<bar>"
  have pos: "0 < \<bar>x\<bar>" using lo zero_less_power_int [of "2::rat" "- 1022"] by linarith
  then have x0: "x \<noteq> 0" by simp
  note be = binary_exponent_bounds [OF pos, folded e_def]
  have "(2::rat) powi (- 1022) < 2 powi (e + 1)" using lo be(2) by linarith
  then have e_lo: "- 1022 < e + 1" by (rule powi_less_exp)
  then have emax: "max e (- 1022) = e" by simp
  have "(2::rat) powi e < 2 powi b" using hi be(1) by linarith
  then have "e < b" by (rule powi_less_exp)
  then have eb: "e - 53 \<le> b - 54" by simp
  define ulp :: rat where "ulp = 2 powi (e - 52)"
  have ulp: "0 < ulp" by (simp add: ulp_def)
  define m where "m = round_half_even (x / ulp)"
  define f where "f = of_int m * ulp"
  have "\<bar>of_int m - x / ulp\<bar> * ulp \<le> 1 / 2 * ulp"
    unfolding m_def using round_half_even_error [of "x / ulp"] ulp
    by (intro mult_right_mono) simp_all
  moreover have "\<bar>of_int m - x / ulp\<bar> * ulp = \<bar>f - x\<bar>"
  proof -
    have "\<bar>of_int m - x / ulp\<bar> * ulp = \<bar>(of_int m - x / ulp) * ulp\<bar>"
      using ulp by (simp add: abs_mult)
    also have "(of_int m - x / ulp) * ulp = f - x"
      using ulp by (simp add: f_def algebra_simps)
    finally show ?thesis .
  qed
  moreover have "1 / 2 * ulp = 2 powi (e - 53)"
    by (simp add: ulp_def power_int_diff)
  ultimately have err: "\<bar>f - x\<bar> \<le> 2 powi (e - 53)" by simp
  also have "\<dots> \<le> 2 powi (b - 54)"
    using eb by (intro power_int_increasing) simp_all
  finally have err': "\<bar>f - x\<bar> \<le> 2 powi (b - 54)" .
  have "(2::rat) powi (b - 54) \<le> 2 powi 969"
    using b by (intro power_int_increasing) simp_all
  moreover have "(2::rat) powi b \<le> 2 powi 1023"
    using b by (intro power_int_increasing) simp_all
  moreover have "(2::rat) powi 969 + 2 powi 1023 < 2 powi 1024"
  proof -
    have "(2::rat) powi 969 < 2 powi 1023" by (intro power_int_strict_increasing) simp_all
    moreover have "(2::rat) powi 1024 = 2 * 2 powi 1023"
      using power_int_add_1' [of "2::rat" 1023] by simp
    ultimately show ?thesis by linarith
  qed
  ultimately have nov: "\<not> 2 powi 1024 \<le> \<bar>f\<bar>" using err' hi by linarith
  have fl: "float_of_rat x = Finite f"
    using x0 nov
    by (simp only: float_of_rat_def Let_def e_def [symmetric] emax ulp_def [symmetric]
        m_def [symmetric] f_def [symmetric] if_False)
  have "\<bar>x / ulp\<bar> = \<bar>x\<bar> / ulp" using ulp by (simp add: abs_divide)
  also have "\<dots> < 2 powi (e + 1) / ulp"
    using be(2) ulp by (simp add: divide_strict_right_mono)
  also have "\<dots> = 2 powi 53"
    by (simp add: ulp_def power_int_diff power_int_add)
  finally have "\<bar>x / ulp\<bar> \<le> of_int (2 ^ 53)" by simp
  then have mb: "\<bar>m\<bar> \<le> 2 ^ 53" unfolding m_def by (rule round_half_even_bound)
  have "f = of_int m * 2 powi (e - 52) \<and> \<bar>m\<bar> \<le> 2 ^ 53 \<and> - 1074 \<le> e - 52"
    using mb e_lo by (simp add: f_def ulp_def)
  with fl err' show ?thesis by blast
qed

lemma decimal_hundredths:
  assumes "- 2 \<le> e"
  shows "decimal_value c e * 100 = of_int (c * 10 ^ nat (e + 2))"
proof -
  have "(10::rat) powi (e + 2) = 10 powi e * 10 powi 2"
    by (rule power_int_add) simp
  moreover have "(10::rat) powi (e + 2) = 10 ^ nat (e + 2)"
    using assms by (simp add: power_int_def)
  ultimately show ?thesis by (simp add: decimal_value_def)
qed

lemma round2_float_of_rat:
  assumes e: "- 2 \<le> e" and hi: "\<bar>decimal_value c e\<bar> < 2 powi 46"
  shows "\<exists>f. float_of_rat (decimal_value c e) = Finite f \<and>
             \<bar>f - decimal_value c e\<bar> \<le> 1 / 256 \<and>
             round2 f = decimal_value c e \<and>
             (\<exists>m q. f = of_int m * 2 powi q \<and> \<bar>m\<bar> \<le> 2 ^ 53 \<and> - 1074 \<le> q)"
proof (cases "decimal_value c e = 0")
  case True
  have "(0::rat) = of_int 0 * 2 powi 0 \<and> \<bar>0::int\<bar> \<le> 2 ^ 53 \<and> - 1074 \<le> (0::int)" by simp
  then have "\<exists>m q. (0::rat) = of_int m * 2 powi q \<and> \<bar>m\<bar> \<le> 2 ^ 53 \<and> - 1074 \<le> q" by blast
  with True show ?thesis by (simp add: float_of_rat_def round2_def round_half_even_def)
next
  case False
  define v where "v = decimal_value c e"
  define N where "N = c * 10 ^ nat (e + 2)"
  have N: "v * 100 = of_int N" unfolding v_def N_def by (rule decimal_hundredths [OF e])
  from False have "N \<noteq> 0" using N by (auto simp: v_def)
  then have "1 \<le> \<bar>N\<bar>" by simp
  then have "(1::rat) \<le> \<bar>of_int N\<bar>" by (metis of_int_abs of_int_1_le_iff)
  moreover have "\<bar>of_int N :: rat\<bar> = \<bar>v\<bar> * 100" by (simp flip: N add: abs_mult)
  ultimately have "1 \<le> \<bar>v\<bar> * 100" by simp
  then have v100: "1 / 100 \<le> \<bar>v\<bar>" by simp
  have "(2::rat) powi (- 1022) \<le> 2 powi (- 7)" by (intro power_int_increasing) simp_all
  also have "\<dots> \<le> 1 / 100" by (simp add: power_int_minus_divide)
  finally have lo: "2 powi (- 1022) \<le> \<bar>v\<bar>" using v100 by linarith
  from float_of_rat_error [OF lo hi [folded v_def]] obtain f where
    f: "float_of_rat v = Finite f" and err: "\<bar>f - v\<bar> \<le> 2 powi (46 - 54)"
    and bin: "\<exists>m q. f = of_int m * 2 powi q \<and> \<bar>m\<bar> \<le> 2 ^ 53 \<and> - 1074 \<le> q"
    by auto
  have err': "\<bar>f - v\<bar> \<le> 1 / 256" using err by (simp add: power_int_minus_divide)
  have "\<bar>f * 100 - of_int N\<bar> = \<bar>f - v\<bar> * 100" by (simp flip: N add: abs_if algebra_simps)
  also have "\<dots> < 1 / 2" using err' by simp
  finally have "round_half_even (f * 100) = N" by (rule round_half_even_near)
  then have "round2 f = v" using N by (simp add: round2_def)
  with f err' bin show ?thesis unfolding v_def by blast
qed

lemma float_of_eighth: "float_of_rat (1 / 8) = Finite (1 / 8)"
proof -
  have e: "binary_exponent \<bar>1 / 8\<bar> = - 3"
    by (rule binary_exponent_unique) (simp_all add: power_int_minus_divide)
  have m: "max (binary_exponent \<bar>1 / 8\<bar>) (- 1022) = - 3" by (simp only: e)
  have q: "(1 / 8 :: rat) / 2 powi (- 3 - 52) = of_int (2 ^ 52)"
    by (simp add: power_int_minus_divide)
  have f: "of_int (round_half_even ((1 / 8) / 2 powi (- 3 - 52))) * 2 powi (- 3 - 52) = (1 / 8 :: rat)"
    by (simp only: q round_half_even_of_int) (simp add: power_int_minus_divide)
  have n: "\<not> 2 powi 1024 \<le> \<bar>1 / 8 :: rat\<bar>" by simp
  show ?thesis
    unfolding float_of_rat_def Let_def m f using n by simp
qed

lemma decimal_eighth: "decimal_value 125 (- 3) = 1 / 8"
  by (simp add: decimal_value_def power_int_minus_divide)

lemma round2_eighth: "round2 (1 / 8) = 3 / 25"
proof -
  have fl: "\<lfloor>25 / 2 :: rat\<rfloor> = 12" by (rule floor_unique) simp_all
  show ?thesis by (simp add: round2_def round_half_even_def fl)
qed

lemma float_of_demo_amount:
  "float_of_rat (- 2317 / 100) = Finite (- 1630443802596475 / 70368744177664)"
proof -
  have e: "binary_exponent \<bar>- 2317 / 100\<bar> = 4"
    by (rule binary_exponent_unique) simp_all
  have m: "max (binary_exponent \<bar>- 2317 / 100\<bar>) (- 1022) = 4" by (simp only: e)
  have u: "(2::rat) powi (4 - 52) = 1 / 2 ^ 48" by (simp add: power_int_minus_divide)
  have r: "round_half_even ((- 2317 / 100) / (1 / 2 ^ 48)) = - 6521775210385900"
    by (rule round_half_even_near) simp
  have n: "\<not> 2 powi 1024 \<le> \<bar>- 1630443802596475 / 70368744177664 :: rat\<bar>" by simp
  have x: "(- 2317 / 100 :: rat) \<noteq> 0" by simp
  show ?thesis
    unfolding float_of_rat_def Let_def m u r using n x by simp
qed

lemma float_of_large_amount:
  "float_of_rat (7036874417766401 / 100) = Finite (4503599627370497 / 64)"
proof -
  have e: "binary_exponent \<bar>7036874417766401 / 100\<bar> = 46"
    by (rule binary_exponent_unique) simp_all
  have m: "max (binary_exponent \<bar>7036874417766401 / 100\<bar>) (- 1022) = 46" by (simp only: e)
  have u: "(2::rat) powi (46 - 52) = 1 / 64" by (simp add: power_int_minus_divide)
  have r: "round_half_even ((7036874417766401 / 100) / (1 / 64)) = 4503599627370497"
    by (rule round_half_even_near) simp
  have n: "\<not> 2 powi 1024 \<le> \<bar>4503599627370497 / 64 :: rat\<bar>" by simp
  have x: "(7036874417766401 / 100 :: rat) \<noteq> 0" by simp
  show ?thesis
    unfolding float_of_rat_def Let_def m u r using n x by simp
qed

lemma decimal_large_amount: "decimal_value 7036874417766401 (- 2) = 7036874417766401 / 100"
  by (simp add: decimal_value_def power_int_minus_divide)

lemma round2_large_amount: "round2 (4503599627370497 / 64) = 7036874417766402 / 100"
proof -
  have "round_half_even (4503599627370497 / 64 * 100) = 7036874417766402"
    by (rule round_half_even_near) simp
  then show ?thesis by (simp only: round2_def)
qed

text \<open>
  Claim C6, as the code has it.  A finite \<^verbatim>\<open>Decimal\<close> attribute is stored as the binary64
  value nearest to it; the converter does not round.  When the decimal has at most two
  fractional digits (exponent at least \<open>- 2\<close>) and its absolute value is below \<open>2 ^ 46\<close>,
  the stored value is within \<open>1 / 256\<close> of the decimal, so rounding it to two decimal
  places gives the decimal back and the difference is zero.
\<close>

theorem decimal_to_float_rounding:
  assumes "- 2 \<le> e" and "\<bar>decimal_value c e\<bar> < 2 powi 46"
  shows "\<exists>f. float_of_decimal (Decimal c e) = Inr (Finite f) \<and>
             (\<exists>m q. f = of_int m * 2 powi q \<and> \<bar>m\<bar> \<le> 2 ^ 53 \<and> - 1074 \<le> q) \<and>
             \<bar>f - decimal_value c e\<bar> \<le> 1 / 256 \<and>
             round2 f = decimal_value c e \<and>
             \<bar>round2 f - decimal_value c e\<bar> < 1 / 1000 \<and>
             (\<not> startswith_underscore n \<longrightarrow>
                flatten_attr d (n, PDecimal (Decimal c e)) = Inr (setitem d n (PFloat (Finite f))))"
proof -
  from round2_float_of_rat [OF assms] obtain f where
    f: "float_of_rat (decimal_value c e) = Finite f"
    and err: "\<bar>f - decimal_value c e\<bar> \<le> 1 / 256"
    and r: "round2 f = decimal_value c e"
    and bin: "\<exists>m q. f = of_int m * 2 powi q \<and> \<bar>m\<bar> \<le> 2 ^ 53 \<and> - 1074 \<le> q"
    by blast
  have fd: "float_of_decimal (Decimal c e) = Inr (Finite f)"
    by (simp add: float_of_decimal_def f)
  have "\<not> startswith_underscore n \<longrightarrow>
          flatten_attr d (n, PDecimal (Decimal c e)) = Inr (setitem d n (PFloat (Finite f)))"
    by (simp add: flatten_attr_decimal fd)
  with fd bin err r show ?thesis by simp
qed

theorem decimal_to_float_rounding_witness:
  "- 2 \<le> (- 2 :: int) \<and> \<bar>decimal_value (- 2317) (- 2)\<bar> < 2 powi 46 \<and>
   decimal_value (- 2317) (- 2) = - 2317 / 100 \<and>
   float_of_decimal (Decimal (- 2317) (- 2)) =
     Inr (Finite (- 1630443802596475 / 70368744177664)) \<and>
   \<bar>- 1630443802596475 / 70368744177664 - (- 2317 / 100 :: rat)\<bar> \<le> 1 / 256 \<and>
   round2 (- 1630443802596475 / 70368744177664) = - 2317 / 100 \<and>
   flatten_attr [] (''trnamt'', PDecimal (Decimal (- 2317) (- 2))) =
     Inr [(''trnamt'', PFloat (Finite (- 1630443802596475 / 70368744177664)))]"
proof -
  have v: "decimal_value (- 2317) (- 2) = - 2317 / 100"
    by (simp add: decimal_value_def power_int_minus_divide)
  have h: "\<bar>decimal_value (- 2317) (- 2)\<bar> < 2 powi 46" by (simp add: v)
  have e: "- 2 \<le> (- 2 :: int)" by simp
  have fd: "float_of_decimal (Decimal (- 2317) (- 2)) =
              Inr (Finite (- 1630443802596475 / 70368744177664))"
    by (simp only: float_of_decimal_def decimal.case v float_of_demo_amount)
  from decimal_to_float_rounding [OF e h, of "''trnamt''" "[]"] obtain f where
    "float_of_decimal (Decimal (- 2317) (- 2)) = Inr (Finite f)"
    "\<bar>f - decimal_value (- 2317) (- 2)\<bar> \<le> 1 / 256"
    "round2 f = decimal_value (- 2317) (- 2)"
    "flatten_attr [] (''trnamt'', PDecimal (Decimal (- 2317) (- 2))) =
       Inr (setitem [] ''trnamt'' (PFloat (Finite f)))"
    by auto
  with fd have
    "\<bar>- 1630443802596475 / 70368744177664 - decimal_value (- 2317) (- 2)\<bar> \<le> 1 / 256"
    "round2 (- 1630443802596475 / 70368744177664) = decimal_value (- 2317) (- 2)"
    "flatten_attr [] (''trnamt'', PDecimal (Decimal (- 2317) (- 2))) =
       Inr (setitem [] ''trnamt'' (PFloat (Finite (- 1630443802596475 / 70368744177664))))"
    by auto
  then have
    "\<bar>- 1630443802596475 / 70368744177664 - (- 2317 / 100 :: rat)\<bar> \<le> 1 / 256 \<and>
     round2 (- 1630443802596475 / 70368744177664) = - 2317 / 100 \<and>
     flatten_attr [] (''trnamt'', PDecimal (Decimal (- 2317) (- 2))) =
       Inr [(''trnamt'', PFloat (Finite (- 1630443802596475 / 70368744177664)))]"
    unfolding v by (simp only: setitem_def AList.update.simps)
  with e h v fd show ?thesis by blast
qed

text \<open>
  Claim C6 as the specification states it (for every decimal, the float rounded to two
  places is within \<open>0.001\<close> of the decimal) fails for \<^verbatim>\<open>Decimal('0.125')\<close>: the float is
  exactly \<open>1 / 8\<close>, rounding it to two places gives \<open>0.12\<close>, and the difference is
  \<open>0.005\<close>.  It fails for a large amount with two fractional digits as well: next to
  \<^verbatim>\<open>Decimal('70368744177664.01')\<close>, just above \<open>2 ^ 46\<close>, the binary64 values are
  \<open>1 / 64\<close> apart, the float is \<open>70368744177664.015625\<close>, and rounding it gives
  \<open>70368744177664.02\<close>.
\<close>

theorem rounding_bound_counterexample:
  "float_of_decimal (Decimal 125 (- 3)) = Inr (Finite (1 / 8)) \<and>
   flatten_attr [] (''trnamt'', PDecimal (Decimal 125 (- 3))) =
     Inr [(''trnamt'', PFloat (Finite (1 / 8)))] \<and>
   decimal_value 125 (- 3) = 1 / 8 \<and>
   round2 (1 / 8) = 3 / 25 \<and>
   \<bar>round2 (1 / 8) - decimal_value 125 (- 3)\<bar> = 1 / 200 \<and>
   \<not> \<bar>round2 (1 / 8) - decimal_value 125 (- 3)\<bar> < 1 / 1000 \<and>
   float_of_decimal (Decimal 7036874417766401 (- 2)) = Inr (Finite (4503599627370497 / 64)) \<and>
   2 powi 46 \<le> \<bar>decimal_value 7036874417766401 (- 2)\<bar> \<and>
   \<bar>round2 (4503599627370497 / 64) - decimal_value 7036874417766401 (- 2)\<bar> = 1 / 100 \<and>
   \<not> \<bar>round2 (4503599627370497 / 64) - decimal_value 7036874417766401 (- 2)\<bar> < 1 / 1000"
proof -
  have fd: "float_of_decimal (Decimal 125 (- 3)) = Inr (Finite (1 / 8))"
    by (simp add: float_of_decimal_def decimal_eighth float_of_eighth)
  have fa: "flatten_attr [] (''trnamt'', PDecimal (Decimal 125 (- 3))) =
     Inr [(''trnamt'', PFloat (Finite (1 / 8)))]"
    by (simp add: flatten_attr_decimal fd setitem_def)
  have fl: "float_of_decimal (Decimal 7036874417766401 (- 2)) =
              Inr (Finite (4503599627370497 / 64))"
    by (simp only: float_of_decimal_def decimal.case decimal_large_amount float_of_large_amount)
  show ?thesis
    using fd fa fl
    by (simp add: decimal_eighth round2_eighth decimal_large_amount round2_large_amount)
qed

section \<open>Temporal values: claim C7\<close>










































end
